theory Spec2Isabelle
  imports Main "HOL-Library.Word" "HOL-Library.Sublist"
begin

section \<open>Transport selection (HidlSupport.cpp, lines 31--71)\<close>

text \<open>
  The transport enumeration, the parsed interface name and the manifest are types of
  other libraries (vintf, hidl-util). They are declared here with exactly the members
  that \<^verbatim>\<open>getTransport\<close> and \<^verbatim>\<open>getTransportFromManifest\<close> use.
  The parser, the two manifest accessors and \<^verbatim>\<open>to_string\<close> are parameters,
  collected in the record \<open>vintf_env\<close>.
\<close>

datatype Transport = EMPTY | HWBINDER | PASSTHROUGH

type_synonym size_t = "64 word"

type_synonym Version = "size_t \<times> size_t"

type_synonym HalManifest = "string \<Rightarrow> Version \<Rightarrow> Transport"

record FQName =
  isValid :: bool
  hasVersion :: bool
  package :: string
  getPackageMajorVersion :: size_t
  getPackageMinorVersion :: size_t
  fq_string :: string
  inPackage :: "string \<Rightarrow> bool"

record vintf_env =
  parseFQName :: "string \<Rightarrow> FQName"
  GetFrameworkHalManifest :: "HalManifest option"
  GetDeviceHalManifest :: "HalManifest option"
  to_string :: "Transport \<Rightarrow> string"

datatype severity = DEBUG | WARNING | ERROR | FATAL

text \<open>
  What a call does besides returning: the log records it emits, and which of the two
  process-scoped manifest accessors it calls.
\<close>

datatype event =
    LOG severity string
  | CallGetFrameworkHalManifest
  | CallGetDeviceHalManifest

definition getTransportFromManifest ::
  "vintf_env \<Rightarrow> FQName \<Rightarrow> string \<Rightarrow> HalManifest option \<Rightarrow> event list \<times> Transport" where
  "getTransportFromManifest env fqName manifestName vm =
     (case vm of
        None \<Rightarrow>
          ([LOG WARNING (''getTransportFromManifest: No '' @ manifestName @ '' manifest defined, ''
                          @ ''using default transport for '' @ fq_string fqName)],
           EMPTY)
      | Some m \<Rightarrow>
          (let tr = m (package fqName)
                      (getPackageMajorVersion fqName, getPackageMinorVersion fqName)
           in if tr = EMPTY
              then ([LOG WARNING (''getTransportFromManifest: Cannot find entry ''
                                   @ fq_string fqName
                                   @ '' in '' @ manifestName @ '' manifest, using default transport.'')],
                    tr)
              else ([LOG DEBUG (''getTransportFromManifest: '' @ fq_string fqName
                                 @ '' declares transport method '' @ to_string env tr
                                 @ '' in '' @ manifestName @ '' manifest'')],
                    tr)))"

definition getTransport :: "vintf_env \<Rightarrow> string \<Rightarrow> event list \<times> Transport" where
  "getTransport env name =
     (let fqName = parseFQName env name
      in if \<not> isValid fqName
         then ([LOG ERROR (''getTransport: '' @ name @ '' is not a valid fully-qualified name.'')],
               EMPTY)
         else if \<not> hasVersion fqName
         then ([LOG ERROR (''getTransport: '' @ fq_string fqName
                            @ '' does not specify a version. Using default transport.'')],
               EMPTY)
         else if inPackage fqName ''android.hidl''
         then (let r = getTransportFromManifest env fqName ''framework''
                         (GetFrameworkHalManifest env)
               in (CallGetFrameworkHalManifest # fst r, snd r))
         else (let r = getTransportFromManifest env fqName ''device''
                         (GetDeviceHalManifest env)
               in (CallGetDeviceHalManifest # fst r, snd r)))"

section \<open>Memory for byte buffers\<close>

text \<open>
  A \<^verbatim>\<open>const char *\<close> is the null pointer, a pointer to a string literal (static
  storage, holding the literal's bytes and the terminating zero) or a pointer to the
  start of a dynamic block. Blocks are numbered in allocation order and a number is
  never reused, so a pointer identifies one allocation; a released block is \<open>None\<close>.
  \<open>freed\<close> lists the arguments of the successful \<^verbatim>\<open>free\<close> calls, oldest first, and
  \<open>junk\<close> is the byte found in memory that \<^verbatim>\<open>malloc\<close> hands out uninitialised.
  \<^verbatim>\<open>size_t\<close> is 64 bits wide (LP64); \<^verbatim>\<open>malloc\<close> returning null is not modelled.
\<close>

type_synonym byte = "8 word"

datatype ptr = nullptr | Literal "byte list" | Addr nat

datatype abort = LogFatal string | Undefined

record hidl_string =
  mBuffer :: ptr
  mSize :: "32 word"
  mOwnsBuffer :: bool

text \<open>
  The \<^verbatim>\<open>hidl_string\<close> objects live in the store \<open>strs\<close>, indexed by their address,
  so that \<^verbatim>\<open>this != &other\<close> is a comparison of indices and a write through
  \<^verbatim>\<open>other\<close> is seen by every later read.
\<close>

record world =
  blocks :: "byte list option list"
  freed :: "ptr list"
  junk :: byte
  strs :: "nat \<Rightarrow> hidl_string"

text \<open>
  A call that does not return (\<^verbatim>\<open>LOG(FATAL)\<close> aborts the process; a read or a
  \<^verbatim>\<open>free\<close> through a pointer that is not valid is undefined) yields \<open>Inl\<close> with the
  reason and the state reached when it stopped.
\<close>

type_synonym failure = "abort \<times> world"

definition load :: "world \<Rightarrow> ptr \<Rightarrow> byte list option" where
  "load w p =
     (case p of
        nullptr \<Rightarrow> None
      | Literal s \<Rightarrow> Some (s @ [0])
      | Addr n \<Rightarrow> if n < length (blocks w) then blocks w ! n else None)"

definition malloc :: "world \<Rightarrow> nat \<Rightarrow> ptr \<times> world" where
  "malloc w n =
     (Addr (length (blocks w)), w\<lparr>blocks := blocks w @ [Some (replicate n (junk w))]\<rparr>)"

definition memcpy :: "world \<Rightarrow> ptr \<Rightarrow> ptr \<Rightarrow> nat \<Rightarrow> world option" where
  "memcpy w dst src n =
     (case (dst, load w dst, load w src) of
        (Addr k, Some d, Some s) \<Rightarrow>
          if n \<le> length d \<and> n \<le> length s
          then Some (w\<lparr>blocks := (blocks w)[k := Some (take n s @ drop n d)]\<rparr>)
          else None
      | _ \<Rightarrow> None)"

definition store_byte :: "world \<Rightarrow> ptr \<Rightarrow> nat \<Rightarrow> byte \<Rightarrow> world option" where
  "store_byte w p i v =
     (case (p, load w p) of
        (Addr k, Some d) \<Rightarrow>
          if i < length d then Some (w\<lparr>blocks := (blocks w)[k := Some (d[i := v])]\<rparr>) else None
      | _ \<Rightarrow> None)"

definition free :: "world \<Rightarrow> ptr \<Rightarrow> world option" where
  "free w p =
     (case p of
        nullptr \<Rightarrow> Some w
      | Literal s \<Rightarrow> None
      | Addr n \<Rightarrow>
          if n < length (blocks w) \<and> blocks w ! n \<noteq> None
          then Some (w\<lparr>blocks := (blocks w)[n := None], freed := freed w @ [p]\<rparr>)
          else None)"

definition strlen :: "world \<Rightarrow> ptr \<Rightarrow> size_t option" where
  "strlen w s =
     (case load w s of
        None \<Rightarrow> None
      | Some bs \<Rightarrow> if 0 \<in> set bs then Some (of_nat (length (takeWhile (\<lambda>b. b \<noteq> 0) bs))) else None)"

section \<open>hidl\_string (HidlSupport.cpp, lines 173--307)\<close>

definition kEmptyString :: ptr where
  "kEmptyString = Literal []"

definition UINT32_MAX :: size_t where
  "UINT32_MAX = 0xFFFFFFFF"

definition set_str :: "nat \<Rightarrow> (hidl_string \<Rightarrow> hidl_string) \<Rightarrow> world \<Rightarrow> world" where
  "set_str this f w = w\<lparr>strs := (strs w)(this := f (strs w this))\<rparr>"

definition c_str :: "world \<Rightarrow> nat \<Rightarrow> ptr" where
  "c_str w this = mBuffer (strs w this)"

definition size_hs :: "world \<Rightarrow> nat \<Rightarrow> size_t" where
  "size_hs w this = ucast (mSize (strs w this))"

definition empty_hs :: "world \<Rightarrow> nat \<Rightarrow> bool" where
  "empty_hs w this = (mSize (strs w this) = 0)"

text \<open>\<^verbatim>\<open>operator std::string()\<close>: the bytes of \<^verbatim>\<open>std::string(mBuffer, mSize)\<close>.\<close>

definition to_std_string :: "world \<Rightarrow> nat \<Rightarrow> byte list option" where
  "to_std_string w this =
     (case load w (mBuffer (strs w this)) of
        None \<Rightarrow> None
      | Some bs \<Rightarrow>
          if unat (mSize (strs w this)) \<le> length bs
          then Some (take (unat (mSize (strs w this))) bs)
          else None)"

definition hidl_string_default :: "nat \<Rightarrow> world \<Rightarrow> world" where
  "hidl_string_default this w =
     set_str this (\<lambda>_. \<lparr>mBuffer = kEmptyString, mSize = 0, mOwnsBuffer = False\<rparr>) w"

definition copyFrom :: "nat \<Rightarrow> ptr \<Rightarrow> size_t \<Rightarrow> world \<Rightarrow> failure + world" where
  "copyFrom this data sz w =
     (if sz > UINT32_MAX
      then Inl (LogFatal ''string size can't exceed 2^32 bytes.'', w)
      else
        (case malloc w (unat (sz + 1)) of
           (buf, w1) \<Rightarrow>
             (case memcpy w1 buf data (unat sz) of
                None \<Rightarrow> Inl (Undefined, w1)
              | Some w2 \<Rightarrow>
                  (case store_byte w2 buf (unat sz) 0 of
                     None \<Rightarrow> Inl (Undefined, w2)
                   | Some w3 \<Rightarrow>
                       Inr (set_str this (\<lambda>s. s\<lparr>mOwnsBuffer := True\<rparr>)
                             (set_str this (\<lambda>s. s\<lparr>mSize := ucast sz\<rparr>)
                               (set_str this (\<lambda>s. s\<lparr>mBuffer := buf\<rparr>) w3)))))))"

definition moveFrom :: "nat \<Rightarrow> nat \<Rightarrow> world \<Rightarrow> world" where
  "moveFrom this other w =
     (let w1 = set_str this (\<lambda>s. s\<lparr>mBuffer := mBuffer (strs w other)\<rparr>) w;
          w2 = set_str this (\<lambda>s. s\<lparr>mSize := mSize (strs w1 other)\<rparr>) w1;
          w3 = set_str this (\<lambda>s. s\<lparr>mOwnsBuffer := mOwnsBuffer (strs w2 other)\<rparr>) w2
      in set_str other (\<lambda>s. s\<lparr>mOwnsBuffer := False\<rparr>) w3)"

definition clear :: "nat \<Rightarrow> world \<Rightarrow> failure + world" where
  "clear this w =
     (case (if mOwnsBuffer (strs w this) \<and> mBuffer (strs w this) \<noteq> kEmptyString
            then free w (mBuffer (strs w this))
            else Some w) of
        None \<Rightarrow> Inl (Undefined, w)
      | Some w1 \<Rightarrow>
          Inr (set_str this (\<lambda>s. s\<lparr>mOwnsBuffer := False\<rparr>)
                (set_str this (\<lambda>s. s\<lparr>mSize := 0\<rparr>)
                  (set_str this (\<lambda>s. s\<lparr>mBuffer := kEmptyString\<rparr>) w1))))"

definition setToExternal :: "nat \<Rightarrow> ptr \<Rightarrow> size_t \<Rightarrow> world \<Rightarrow> failure + world" where
  "setToExternal this data sz w =
     (if sz > UINT32_MAX
      then Inl (LogFatal ''string size can't exceed 2^32 bytes.'', w)
      else
        (case clear this w of
           Inl e \<Rightarrow> Inl e
         | Inr w1 \<Rightarrow>
             Inr (set_str this (\<lambda>s. s\<lparr>mOwnsBuffer := False\<rparr>)
                   (set_str this (\<lambda>s. s\<lparr>mSize := ucast sz\<rparr>)
                     (set_str this (\<lambda>s. s\<lparr>mBuffer := data\<rparr>) w1)))))"

text \<open>The destructor.\<close>

definition hidl_string_dtor :: "nat \<Rightarrow> world \<Rightarrow> failure + world" where
  "hidl_string_dtor this w = clear this w"

text \<open>\<^verbatim>\<open>hidl_string(const char *s)\<close>\<close>

definition hidl_string_cstr :: "nat \<Rightarrow> ptr \<Rightarrow> world \<Rightarrow> failure + world" where
  "hidl_string_cstr this s w =
     (let w0 = hidl_string_default this w
      in if s = nullptr then Inr w0
         else (case strlen w0 s of
                 None \<Rightarrow> Inl (Undefined, w0)
               | Some n \<Rightarrow> copyFrom this s n w0))"

text \<open>\<^verbatim>\<open>hidl_string(const char *s, size_t length)\<close>\<close>

definition hidl_string_ptr_len :: "nat \<Rightarrow> ptr \<Rightarrow> size_t \<Rightarrow> world \<Rightarrow> failure + world" where
  "hidl_string_ptr_len this s len w = copyFrom this s len (hidl_string_default this w)"

text \<open>\<^verbatim>\<open>hidl_string(const hidl_string &other)\<close>\<close>

definition hidl_string_copy :: "nat \<Rightarrow> nat \<Rightarrow> world \<Rightarrow> failure + world" where
  "hidl_string_copy this other w =
     (let w0 = hidl_string_default this w
      in copyFrom this (c_str w0 other) (size_hs w0 other) w0)"

text \<open>
  A \<^verbatim>\<open>std::string\<close> argument is seen through \<^verbatim>\<open>c_str()\<close> and \<^verbatim>\<open>size()\<close>;
  \<open>std_string_holds w s B\<close> says that it holds the bytes \<open>B\<close>.
\<close>

record std_string =
  str_c_str :: ptr
  str_size :: size_t

definition std_string_holds :: "world \<Rightarrow> std_string \<Rightarrow> byte list \<Rightarrow> bool" where
  "std_string_holds w s B \<longleftrightarrow>
     load w (str_c_str s) = Some (B @ [0]) \<and> str_size s = of_nat (length B)
     \<and> length B < 2 ^ 64"

text \<open>\<^verbatim>\<open>hidl_string(const std::string &s)\<close>\<close>

definition hidl_string_std :: "nat \<Rightarrow> std_string \<Rightarrow> world \<Rightarrow> failure + world" where
  "hidl_string_std this s w =
     copyFrom this (str_c_str s) (str_size s) (hidl_string_default this w)"

text \<open>\<^verbatim>\<open>hidl_string(hidl_string &&other)\<close>\<close>

definition hidl_string_move :: "nat \<Rightarrow> nat \<Rightarrow> world \<Rightarrow> world" where
  "hidl_string_move this other w = moveFrom this other (hidl_string_default this w)"

text \<open>\<^verbatim>\<open>operator=(hidl_string &&other)\<close>\<close>

definition assign_move :: "nat \<Rightarrow> nat \<Rightarrow> world \<Rightarrow> failure + world" where
  "assign_move this other w =
     (if this \<noteq> other
      then (case clear this w of Inl e \<Rightarrow> Inl e | Inr w1 \<Rightarrow> Inr (moveFrom this other w1))
      else Inr w)"

text \<open>\<^verbatim>\<open>operator=(const hidl_string &other)\<close>\<close>

definition assign_copy :: "nat \<Rightarrow> nat \<Rightarrow> world \<Rightarrow> failure + world" where
  "assign_copy this other w =
     (if this \<noteq> other
      then (case clear this w of
              Inl e \<Rightarrow> Inl e
            | Inr w1 \<Rightarrow> copyFrom this (c_str w1 other) (size_hs w1 other) w1)
      else Inr w)"

text \<open>\<^verbatim>\<open>operator=(const char *s)\<close>\<close>

definition assign_cstr :: "nat \<Rightarrow> ptr \<Rightarrow> world \<Rightarrow> failure + world" where
  "assign_cstr this s w =
     (case clear this w of
        Inl e \<Rightarrow> Inl e
      | Inr w1 \<Rightarrow>
          if s = nullptr then Inr w1
          else (case strlen w1 s of
                  None \<Rightarrow> Inl (Undefined, w1)
                | Some n \<Rightarrow> copyFrom this s n w1))"

text \<open>\<^verbatim>\<open>operator=(const std::string &s)\<close>\<close>

definition assign_std :: "nat \<Rightarrow> std_string \<Rightarrow> world \<Rightarrow> failure + world" where
  "assign_std this s w =
     (case clear this w of
        Inl e \<Rightarrow> Inl e
      | Inr w1 \<Rightarrow> copyFrom this (str_c_str s) (str_size s) w1)"

text \<open>
  Vocabulary for the buffer properties: a pointer to a dynamic block that has not been
  released; the ownership invariant of one \<^verbatim>\<open>hidl_string\<close> (an owned buffer is such
  a block); and the buffer that destroying or clearing the object hands to \<^verbatim>\<open>free\<close>.
\<close>

fun live_block :: "world \<Rightarrow> ptr \<Rightarrow> bool" where
  "live_block w (Addr k) = (k < length (blocks w) \<and> blocks w ! k \<noteq> None)"
| "live_block w p = False"

definition owned_buffer_live :: "world \<Rightarrow> nat \<Rightarrow> bool" where
  "owned_buffer_live w this \<longleftrightarrow>
     (mOwnsBuffer (strs w this) \<longrightarrow> live_block w (mBuffer (strs w this)))"

definition released :: "world \<Rightarrow> nat \<Rightarrow> ptr list" where
  "released w this = (if mOwnsBuffer (strs w this) then [mBuffer (strs w this)] else [])"

section \<open>Native handle records\<close>

text \<open>
  \<^verbatim>\<open>native_handle_clone\<close>, \<^verbatim>\<open>native_handle_close\<close> and \<^verbatim>\<open>native_handle_delete\<close>
  belong to another library; \<^verbatim>\<open>hidl_handle\<close> only calls them. A record is identified
  by its number, given in creation order and never reused; \<open>records\<close> says for each
  number whether the record is still allocated. \<open>calls\<close> lists the calls of the three
  primitives, oldest first. \<open>clone_fails\<close> tells whether the next clone returns null
  (descriptors or memory exhausted). A primitive applied to a pointer that is not an
  allocated record is undefined.
\<close>

datatype native_handle_ptr = NullHandle | Handle nat

datatype handle_call =
    Clone native_handle_ptr native_handle_ptr
  | Close native_handle_ptr
  | Delete native_handle_ptr

record hidl_handle =
  mHandle :: native_handle_ptr
  mOwnsHandle :: bool

record handle_world =
  records :: "bool list"
  clone_fails :: bool
  calls :: "handle_call list"
  handles :: "nat \<Rightarrow> hidl_handle"

type_synonym handle_failure = "abort \<times> handle_world"

fun live_record :: "handle_world \<Rightarrow> native_handle_ptr \<Rightarrow> bool" where
  "live_record w (Handle n) = (n < length (records w) \<and> records w ! n)"
| "live_record w NullHandle = False"

definition native_handle_clone ::
  "handle_world \<Rightarrow> native_handle_ptr \<Rightarrow> (native_handle_ptr \<times> handle_world) option" where
  "native_handle_clone w p =
     (if \<not> live_record w p then None
      else if clone_fails w
      then Some (NullHandle, w\<lparr>calls := calls w @ [Clone p NullHandle]\<rparr>)
      else Some (Handle (length (records w)),
                 w\<lparr>records := records w @ [True],
                   calls := calls w @ [Clone p (Handle (length (records w)))]\<rparr>))"

definition native_handle_close :: "handle_world \<Rightarrow> native_handle_ptr \<Rightarrow> handle_world option" where
  "native_handle_close w p =
     (if live_record w p then Some (w\<lparr>calls := calls w @ [Close p]\<rparr>) else None)"

definition native_handle_delete :: "handle_world \<Rightarrow> native_handle_ptr \<Rightarrow> handle_world option" where
  "native_handle_delete w p =
     (case p of
        NullHandle \<Rightarrow> None
      | Handle n \<Rightarrow>
          if live_record w p
          then Some (w\<lparr>records := (records w)[n := False], calls := calls w @ [Delete p]\<rparr>)
          else None)"

section \<open>hidl\_handle (HidlSupport.cpp, lines 73--171)\<close>

definition set_handle :: "nat \<Rightarrow> (hidl_handle \<Rightarrow> hidl_handle) \<Rightarrow> handle_world \<Rightarrow> handle_world" where
  "set_handle this f w = w\<lparr>handles := (handles w)(this := f (handles w this))\<rparr>"

definition freeHandle :: "nat \<Rightarrow> handle_world \<Rightarrow> handle_failure + handle_world" where
  "freeHandle this w =
     (if mOwnsHandle (handles w this) \<and> mHandle (handles w this) \<noteq> NullHandle
      then (case native_handle_close w (mHandle (handles w this)) of
              None \<Rightarrow> Inl (Undefined, w)
            | Some w1 \<Rightarrow>
                (case native_handle_delete w1 (mHandle (handles w this)) of
                   None \<Rightarrow> Inl (Undefined, w1)
                 | Some w2 \<Rightarrow> Inr (set_handle this (\<lambda>h. h\<lparr>mHandle := NullHandle\<rparr>) w2)))
      else Inr w)"

text \<open>\<^verbatim>\<open>hidl_handle()\<close>\<close>

definition hidl_handle_default :: "nat \<Rightarrow> handle_world \<Rightarrow> handle_world" where
  "hidl_handle_default this w =
     set_handle this (\<lambda>h. h\<lparr>mOwnsHandle := False\<rparr>)
       (set_handle this (\<lambda>h. h\<lparr>mHandle := NullHandle\<rparr>) w)"

text \<open>\<^verbatim>\<open>~hidl_handle()\<close>\<close>

definition hidl_handle_dtor :: "nat \<Rightarrow> handle_world \<Rightarrow> handle_failure + handle_world" where
  "hidl_handle_dtor this w = freeHandle this w"

text \<open>\<^verbatim>\<open>hidl_handle(const native_handle_t *handle)\<close>\<close>

definition hidl_handle_raw :: "nat \<Rightarrow> native_handle_ptr \<Rightarrow> handle_world \<Rightarrow> handle_world" where
  "hidl_handle_raw this handle w =
     set_handle this (\<lambda>h. h\<lparr>mOwnsHandle := False\<rparr>)
       (set_handle this (\<lambda>h. h\<lparr>mHandle := handle\<rparr>) w)"

text \<open>\<^verbatim>\<open>operator=(const hidl_handle &other)\<close>\<close>

definition handle_assign_copy :: "nat \<Rightarrow> nat \<Rightarrow> handle_world \<Rightarrow> handle_failure + handle_world" where
  "handle_assign_copy this other w =
     (if this = other then Inr w
      else
        (case freeHandle this w of
           Inl e \<Rightarrow> Inl e
         | Inr w1 \<Rightarrow>
             if mHandle (handles w1 other) \<noteq> NullHandle
             then (case native_handle_clone w1 (mHandle (handles w1 other)) of
                     None \<Rightarrow> Inl (Undefined, w1)
                   | Some (h, w2) \<Rightarrow>
                       (let w3 = set_handle this (\<lambda>x. x\<lparr>mHandle := h\<rparr>) w2
                        in if mHandle (handles w3 this) = NullHandle
                           then Inl (LogFatal ''Failed to clone native_handle in hidl_handle.'', w3)
                           else Inr (set_handle this (\<lambda>x. x\<lparr>mOwnsHandle := True\<rparr>) w3)))
             else Inr (set_handle this (\<lambda>x. x\<lparr>mOwnsHandle := False\<rparr>)
                        (set_handle this (\<lambda>x. x\<lparr>mHandle := NullHandle\<rparr>) w1))))"

text \<open>\<^verbatim>\<open>hidl_handle(const hidl_handle &other)\<close>\<close>

definition hidl_handle_copy :: "nat \<Rightarrow> nat \<Rightarrow> handle_world \<Rightarrow> handle_failure + handle_world" where
  "hidl_handle_copy this other w =
     handle_assign_copy this other (set_handle this (\<lambda>h. h\<lparr>mOwnsHandle := False\<rparr>) w)"

text \<open>\<^verbatim>\<open>operator=(const native_handle_t *native_handle)\<close>\<close>

definition handle_assign_raw ::
  "nat \<Rightarrow> native_handle_ptr \<Rightarrow> handle_world \<Rightarrow> handle_failure + handle_world" where
  "handle_assign_raw this native_handle w =
     (case freeHandle this w of
        Inl e \<Rightarrow> Inl e
      | Inr w1 \<Rightarrow>
          Inr (set_handle this (\<lambda>h. h\<lparr>mOwnsHandle := False\<rparr>)
                (set_handle this (\<lambda>h. h\<lparr>mHandle := native_handle\<rparr>) w1)))"

text \<open>\<^verbatim>\<open>operator=(hidl_handle &&other)\<close>\<close>

definition handle_assign_move :: "nat \<Rightarrow> nat \<Rightarrow> handle_world \<Rightarrow> handle_failure + handle_world" where
  "handle_assign_move this other w =
     (if this \<noteq> other
      then (case freeHandle this w of
              Inl e \<Rightarrow> Inl e
            | Inr w1 \<Rightarrow>
                (let w2 = set_handle this (\<lambda>h. h\<lparr>mHandle := mHandle (handles w1 other)\<rparr>) w1;
                     w3 = set_handle this (\<lambda>h. h\<lparr>mOwnsHandle := mOwnsHandle (handles w2 other)\<rparr>) w2;
                     w4 = set_handle other (\<lambda>h. h\<lparr>mHandle := NullHandle\<rparr>) w3
                 in Inr (set_handle other (\<lambda>h. h\<lparr>mOwnsHandle := False\<rparr>) w4)))
      else Inr w)"

text \<open>\<^verbatim>\<open>hidl_handle(hidl_handle &&other)\<close>\<close>

definition hidl_handle_move :: "nat \<Rightarrow> nat \<Rightarrow> handle_world \<Rightarrow> handle_failure + handle_world" where
  "hidl_handle_move this other w =
     handle_assign_move this other (set_handle this (\<lambda>h. h\<lparr>mOwnsHandle := False\<rparr>) w)"

definition setTo ::
  "nat \<Rightarrow> native_handle_ptr \<Rightarrow> bool \<Rightarrow> handle_world \<Rightarrow> handle_failure + handle_world" where
  "setTo this handle shouldOwn w =
     (case freeHandle this w of
        Inl e \<Rightarrow> Inl e
      | Inr w1 \<Rightarrow>
          Inr (set_handle this (\<lambda>h. h\<lparr>mOwnsHandle := shouldOwn\<rparr>)
                (set_handle this (\<lambda>h. h\<lparr>mHandle := handle\<rparr>) w1)))"

definition getNativeHandle :: "handle_world \<Rightarrow> nat \<Rightarrow> native_handle_ptr" where
  "getNativeHandle w this = mHandle (handles w this)"

text \<open>
  Vocabulary for the handle properties: the object owns a record (this is the condition
  under which \<^verbatim>\<open>freeHandle\<close> acts); the ownership invariant (an owned record is
  allocated); and the primitive calls that destroying the object makes.
\<close>

definition owns_record :: "handle_world \<Rightarrow> nat \<Rightarrow> bool" where
  "owns_record w this \<longleftrightarrow>
     mOwnsHandle (handles w this) \<and> mHandle (handles w this) \<noteq> NullHandle"

definition owned_record_live :: "handle_world \<Rightarrow> nat \<Rightarrow> bool" where
  "owned_record_live w this \<longleftrightarrow>
     (owns_record w this \<longrightarrow> live_record w (mHandle (handles w this)))"

definition release_calls :: "handle_world \<Rightarrow> nat \<Rightarrow> handle_call list" where
  "release_calls w this =
     (if owns_record w this
      then [Close (mHandle (handles w this)), Delete (mHandle (handles w this))]
      else [])"

section \<open>Example inputs\<close>

text \<open>
  Concrete inputs on which the properties below are exercised. For the transport
  selection: a parser that knows three names, a framework manifest declaring
  \<^verbatim>\<open>android.hidl.manager@1.0\<close> as hwbinder and a device manifest without an entry for
  \<^verbatim>\<open>vendor.acme.foo@2.1\<close>.
\<close>

definition demo_fq :: "string \<Rightarrow> FQName" where
  "demo_fq name =
     (if name = ''android.hidl.manager@1.0::IServiceManager''
      then \<lparr>isValid = True, hasVersion = True, package = ''android.hidl.manager'',
            getPackageMajorVersion = 1, getPackageMinorVersion = 0,
            fq_string = name, inPackage = (\<lambda>p. prefix p ''android.hidl.manager'')\<rparr>
      else if name = ''vendor.acme.foo@2.1::IFoo''
      then \<lparr>isValid = True, hasVersion = True, package = ''vendor.acme.foo'',
            getPackageMajorVersion = 2, getPackageMinorVersion = 1,
            fq_string = name, inPackage = (\<lambda>p. prefix p ''vendor.acme.foo'')\<rparr>
      else if name = ''vendor.acme.foo''
      then \<lparr>isValid = True, hasVersion = False, package = ''vendor.acme.foo'',
            getPackageMajorVersion = 0, getPackageMinorVersion = 0,
            fq_string = name, inPackage = (\<lambda>p. prefix p ''vendor.acme.foo'')\<rparr>
      else \<lparr>isValid = False, hasVersion = False, package = [],
            getPackageMajorVersion = 0, getPackageMinorVersion = 0,
            fq_string = [], inPackage = (\<lambda>p. False)\<rparr>)"

definition demo_framework :: HalManifest where
  "demo_framework pkg v = (if pkg = ''android.hidl.manager'' \<and> v = (1, 0) then HWBINDER else EMPTY)"

definition demo_device :: HalManifest where
  "demo_device pkg v = (if pkg = ''vendor.acme.bar'' \<and> v = (1, 0) then PASSTHROUGH else EMPTY)"

definition demo_to_string :: "Transport \<Rightarrow> string" where
  "demo_to_string t = (case t of EMPTY \<Rightarrow> [] | HWBINDER \<Rightarrow> ''hwbinder'' | PASSTHROUGH \<Rightarrow> ''passthrough'')"

definition demo_env :: vintf_env where
  "demo_env = \<lparr>parseFQName = demo_fq, GetFrameworkHalManifest = Some demo_framework,
               GetDeviceHalManifest = Some demo_device, to_string = demo_to_string\<rparr>"

text \<open>
  For \<^verbatim>\<open>hidl_handle\<close>: one allocated record, which object 0 borrows, respectively owns;
  all other objects are null.
\<close>

definition demo_handle_world :: handle_world where
  "demo_handle_world =
     \<lparr>records = [True], clone_fails = False, calls = [],
      handles = (\<lambda>_. \<lparr>mHandle = NullHandle, mOwnsHandle = False\<rparr>)
                  (0 := \<lparr>mHandle = Handle 0, mOwnsHandle = False\<rparr>)\<rparr>"

definition demo_owned_handle_world :: handle_world where
  "demo_owned_handle_world =
     demo_handle_world\<lparr>handles := (handles demo_handle_world)
                                     (0 := \<lparr>mHandle = Handle 0, mOwnsHandle = True\<rparr>)\<rparr>"

text \<open>
  The state after \<^verbatim>\<open>b(r); a.setTo(r, true)\<close>: object 0 borrows record 0 and object 1
  owns it; and the state in which \<^verbatim>\<open>a = b\<close> then stops.
\<close>

definition demo_alias_world :: handle_world where
  "demo_alias_world =
     demo_handle_world\<lparr>handles := (handles demo_handle_world)
                                     (1 := \<lparr>mHandle = Handle 0, mOwnsHandle = True\<rparr>)\<rparr>"

definition demo_alias_freed_world :: handle_world where
  "demo_alias_freed_world =
     demo_alias_world\<lparr>records := [False],
                      calls := [Close (Handle 0), Delete (Handle 0)],
                      handles := (handles demo_alias_world)
                                   (1 := \<lparr>mHandle = NullHandle, mOwnsHandle = True\<rparr>)\<rparr>"


text \<open>
  For \<^verbatim>\<open>hidl_string\<close>: no block and every object zeroed; object 0 holding an owned copy
  of "hi"; object 0 holding an owned copy of the empty string.
\<close>

definition demo_world :: world where
  "demo_world = \<lparr>blocks = [], freed = [], junk = 0xAA,
                  strs = (\<lambda>_. \<lparr>mBuffer = nullptr, mSize = 0, mOwnsBuffer = False\<rparr>)\<rparr>"

definition demo_owned_world :: world where
  "demo_owned_world =
     demo_world\<lparr>blocks := [Some [104, 105, 0]],
                strs := (strs demo_world)(0 := \<lparr>mBuffer = Addr 0, mSize = 2, mOwnsBuffer = True\<rparr>)\<rparr>"

definition demo_empty_copy_world :: world where
  "demo_empty_copy_world =
     demo_world\<lparr>blocks := [Some [0]],
                strs := (strs demo_world)(0 := \<lparr>mBuffer = Addr 0, mSize = 0, mOwnsBuffer = True\<rparr>)\<rparr>"

section \<open>Verified properties\<close>

subsection \<open>Transport selection\<close>

lemma sublist_mid: "sublist b (a @ b @ c)"
  unfolding sublist_def by blast

text \<open>
  C4. The manifest lookup step. With a null manifest handle it returns EMPTY and logs one
  warning whose text contains the manifest label. With a manifest that answers EMPTY for
  (package, version) it returns EMPTY and logs one warning (which also contains the
  label). Otherwise it returns the manifest's answer unchanged and logs one debug record.
  This holds for every parsed name, in particular for the valid versioned ones.
\<close>

theorem getTransportFromManifest_cases:
  "(vm = None \<longrightarrow>
      (\<exists>msg. getTransportFromManifest env fqName manifestName vm = ([LOG WARNING msg], EMPTY)
             \<and> sublist manifestName msg))
   \<and> (\<forall>m. vm = Some m \<longrightarrow>
        (let tr = m (package fqName) (getPackageMajorVersion fqName, getPackageMinorVersion fqName)
         in (tr = EMPTY \<longrightarrow>
               (\<exists>msg. getTransportFromManifest env fqName manifestName vm
                        = ([LOG WARNING msg], EMPTY) \<and> sublist manifestName msg))
          \<and> (tr \<noteq> EMPTY \<longrightarrow>
               (\<exists>msg. getTransportFromManifest env fqName manifestName vm
                        = ([LOG DEBUG msg], tr)))))"
proof -
  have none: "\<exists>msg. getTransportFromManifest env fqName manifestName None
                      = ([LOG WARNING msg], EMPTY) \<and> sublist manifestName msg"
  proof (intro exI conjI)
    show "getTransportFromManifest env fqName manifestName None
          = ([LOG WARNING (''getTransportFromManifest: No '' @ manifestName
               @ ('' manifest defined, using default transport for '' @ fq_string fqName))], EMPTY)"
      by (simp add: getTransportFromManifest_def)
    show "sublist manifestName (''getTransportFromManifest: No '' @ manifestName
               @ ('' manifest defined, using default transport for '' @ fq_string fqName))"
      by (rule sublist_mid)
  qed
  have missing: "\<exists>msg. getTransportFromManifest env fqName manifestName (Some m)
                      = ([LOG WARNING msg], EMPTY) \<and> sublist manifestName msg"
    if "m (package fqName) (getPackageMajorVersion fqName, getPackageMinorVersion fqName) = EMPTY"
    for m
  proof (intro exI conjI)
    show "getTransportFromManifest env fqName manifestName (Some m)
          = ([LOG WARNING ((''getTransportFromManifest: Cannot find entry '' @ fq_string fqName
               @ '' in '') @ manifestName @ '' manifest, using default transport.'')], EMPTY)"
      using that by (simp add: getTransportFromManifest_def Let_def)
    show "sublist manifestName ((''getTransportFromManifest: Cannot find entry '' @ fq_string fqName
               @ '' in '') @ manifestName @ '' manifest, using default transport.'')"
      by (rule sublist_mid)
  qed
  have found: "\<exists>msg. getTransportFromManifest env fqName manifestName (Some m)
                      = ([LOG DEBUG msg],
                         m (package fqName) (getPackageMajorVersion fqName, getPackageMinorVersion fqName))"
    if "m (package fqName) (getPackageMajorVersion fqName, getPackageMinorVersion fqName) \<noteq> EMPTY"
    for m
    using that by (simp add: getTransportFromManifest_def Let_def)
  show ?thesis
    unfolding Let_def using none missing found by blast
qed

theorem getTransportFromManifest_cases_witness:
  "(\<exists>msg. getTransportFromManifest demo_env (demo_fq ''android.hidl.manager@1.0::IServiceManager'')
             ''framework'' None = ([LOG WARNING msg], EMPTY) \<and> sublist ''framework'' msg)
   \<and> (\<exists>msg. getTransportFromManifest demo_env (demo_fq ''vendor.acme.foo@2.1::IFoo'')
             ''device'' (Some demo_device) = ([LOG WARNING msg], EMPTY) \<and> sublist ''device'' msg)
   \<and> (\<exists>msg. getTransportFromManifest demo_env
             (demo_fq ''android.hidl.manager@1.0::IServiceManager'')
             ''framework'' (Some demo_framework) = ([LOG DEBUG msg], HWBINDER))"
  using getTransportFromManifest_cases
          [where vm = None and env = demo_env and manifestName = "''framework''"
             and fqName = "demo_fq ''android.hidl.manager@1.0::IServiceManager''"]
        getTransportFromManifest_cases
          [where vm = "Some demo_device" and env = demo_env and manifestName = "''device''"
             and fqName = "demo_fq ''vendor.acme.foo@2.1::IFoo''"]
        getTransportFromManifest_cases
          [where vm = "Some demo_framework" and env = demo_env and manifestName = "''framework''"
             and fqName = "demo_fq ''android.hidl.manager@1.0::IServiceManager''"]
  by (simp add: demo_fq_def demo_device_def demo_framework_def Let_def)

text \<open>
  C3. \<^verbatim>\<open>getTransport\<close> returns EMPTY with one error record when the parsed name is
  invalid, and when it is valid but has no version. For a valid versioned name it is the
  lookup step on the framework manifest when \<^verbatim>\<open>inPackage("android.hidl")\<close> holds and on
  the device manifest otherwise; the framework accessor is called exactly in the first
  case and the device accessor exactly in the second.
\<close>

theorem getTransport_policy:
  "(\<not> isValid (parseFQName env name) \<longrightarrow>
      (\<exists>msg. getTransport env name = ([LOG ERROR msg], EMPTY)))
   \<and> (isValid (parseFQName env name) \<and> \<not> hasVersion (parseFQName env name) \<longrightarrow>
      (\<exists>msg. getTransport env name = ([LOG ERROR msg], EMPTY)))
   \<and> (isValid (parseFQName env name) \<and> hasVersion (parseFQName env name) \<longrightarrow>
        (inPackage (parseFQName env name) ''android.hidl'' \<longrightarrow>
           getTransport env name =
             (CallGetFrameworkHalManifest #
                fst (getTransportFromManifest env (parseFQName env name) ''framework''
                       (GetFrameworkHalManifest env)),
              snd (getTransportFromManifest env (parseFQName env name) ''framework''
                       (GetFrameworkHalManifest env))))
      \<and> (\<not> inPackage (parseFQName env name) ''android.hidl'' \<longrightarrow>
           getTransport env name =
             (CallGetDeviceHalManifest #
                fst (getTransportFromManifest env (parseFQName env name) ''device''
                       (GetDeviceHalManifest env)),
              snd (getTransportFromManifest env (parseFQName env name) ''device''
                       (GetDeviceHalManifest env))))
      \<and> (CallGetFrameworkHalManifest \<in> set (fst (getTransport env name))
            \<longleftrightarrow> inPackage (parseFQName env name) ''android.hidl'')
      \<and> (CallGetDeviceHalManifest \<in> set (fst (getTransport env name))
            \<longleftrightarrow> \<not> inPackage (parseFQName env name) ''android.hidl''))"
proof -
  have no_calls: "CallGetFrameworkHalManifest \<notin> set (fst (getTransportFromManifest env f l v))
        \<and> CallGetDeviceHalManifest \<notin> set (fst (getTransportFromManifest env f l v))" for f l v
    by (simp add: getTransportFromManifest_def Let_def split: option.split)
  show ?thesis
    by (simp add: getTransport_def Let_def no_calls)
qed

theorem getTransport_policy_witness:
  "(\<exists>msg. getTransport demo_env ''not a name'' = ([LOG ERROR msg], EMPTY))
   \<and> (\<exists>msg. getTransport demo_env ''vendor.acme.foo'' = ([LOG ERROR msg], EMPTY))
   \<and> getTransport demo_env ''android.hidl.manager@1.0::IServiceManager'' =
       ([CallGetFrameworkHalManifest,
         LOG DEBUG (''getTransportFromManifest: android.hidl.manager@1.0::IServiceManager''
                    @ '' declares transport method hwbinder in framework manifest'')],
        HWBINDER)
   \<and> getTransport demo_env ''vendor.acme.foo@2.1::IFoo'' =
       ([CallGetDeviceHalManifest,
         LOG WARNING (''getTransportFromManifest: Cannot find entry vendor.acme.foo@2.1::IFoo''
                      @ '' in device manifest, using default transport.'')],
        EMPTY)"
  using getTransport_policy [of demo_env "''not a name''"]
        getTransport_policy [of demo_env "''vendor.acme.foo''"]
        getTransport_policy [of demo_env "''android.hidl.manager@1.0::IServiceManager''"]
        getTransport_policy [of demo_env "''vendor.acme.foo@2.1::IFoo''"]
  by (simp add: demo_env_def demo_fq_def demo_device_def demo_framework_def
        demo_to_string_def getTransportFromManifest_def Let_def)

subsection \<open>Arithmetic on sizes and the copy path of hidl\_string\<close>

lemma hidl_string_all_fields [simp]:
  "s\<lparr>mBuffer := b, mSize := n, mOwnsBuffer := ob\<rparr>
     = \<lparr>mBuffer = b, mSize = n, mOwnsBuffer = ob\<rparr>" for s :: hidl_string
  by (cases s) simp

lemma unat_size_of_nat: "n < 2 ^ 64 \<Longrightarrow> unat (of_nat n :: size_t) = n"
  by (simp add: unsigned_of_nat take_bit_nat_eq_self)

lemma size_of_nat_le_max: "n < 2 ^ 32 \<Longrightarrow> (of_nat n :: size_t) \<le> UINT32_MAX"
  by (simp add: UINT32_MAX_def word_le_nat_alt unsigned_of_nat take_bit_nat_eq_self)

lemma unat_narrow: "sz \<le> UINT32_MAX \<Longrightarrow> unat (ucast (sz :: size_t) :: 32 word) = unat sz"
  by (simp add: UINT32_MAX_def word_le_nat_alt unsigned_ucast_eq take_bit_nat_eq_self)

lemma unat_widen: "unat (ucast (x :: 32 word) :: size_t) = unat x"
proof -
  have "unat x < 2 ^ 32" using unsigned_less [of x] by simp
  then have "unat x < 2 ^ 64" by simp
  then show ?thesis by (simp add: unsigned_ucast_eq take_bit_nat_eq_self)
qed

lemma widen_le_max: "(ucast (x :: 32 word) :: size_t) \<le> UINT32_MAX"
proof -
  have "unat x < 2 ^ 32" using unsigned_less [of x] by simp
  then show ?thesis by (simp add: UINT32_MAX_def word_le_nat_alt unat_widen)
qed

lemma unat_succ_size: "sz \<le> UINT32_MAX \<Longrightarrow> unat (sz + 1) = Suc (unat sz)"
proof -
  assume "sz \<le> UINT32_MAX"
  then have "unat sz \<le> 4294967295"
    by (simp add: UINT32_MAX_def word_le_nat_alt)
  then show ?thesis
    by (simp add: unat_word_ariths)
qed

lemma drop_junk: "drop n (x # replicate n x) = [x]"
proof -
  have "drop n (replicate (Suc n) x) = replicate (Suc n - n) x"
    by (rule drop_replicate)
  then show ?thesis by simp
qed

lemma load_malloc_old:
  "load w p = Some bs \<Longrightarrow> load (snd (malloc w n)) p = Some bs"
  by (auto simp: load_def malloc_def nth_append split: ptr.splits if_splits)

lemma load_default [simp]: "load (hidl_string_default this w) p = load w p"
  by (cases p) (simp_all add: load_def hidl_string_default_def set_str_def)

lemma copyFrom_ok:
  assumes src: "load w data = Some src"
    and len: "unat sz \<le> length src"
    and max: "sz \<le> UINT32_MAX"
  shows "copyFrom this data sz w =
           Inr (w\<lparr>blocks := blocks w @ [Some (take (unat sz) src @ [0])],
                  strs := (strs w)(this := \<lparr>mBuffer = Addr (length (blocks w)),
                                              mSize = ucast sz, mOwnsBuffer = True\<rparr>)\<rparr>)"
proof -
  let ?n = "unat sz"
  let ?k = "length (blocks w)"
  let ?w1 = "w\<lparr>blocks := blocks w @ [Some (replicate (Suc ?n) (junk w))]\<rparr>"
  let ?w2 = "w\<lparr>blocks := blocks w @ [Some (take ?n src @ [junk w])]\<rparr>"
  let ?w3 = "w\<lparr>blocks := blocks w @ [Some (take ?n src @ [0])]\<rparr>"
  have m: "malloc w (unat (sz + 1)) = (Addr ?k, ?w1)"
    using max by (simp add: malloc_def unat_succ_size)
  have src1: "load ?w1 data = Some src"
    using load_malloc_old [OF src, of "Suc ?n"] by (simp add: malloc_def)
  have c: "memcpy ?w1 (Addr ?k) data ?n = Some ?w2"
    using src1 len by (simp add: memcpy_def load_def drop_junk)
  have s: "store_byte ?w2 (Addr ?k) ?n 0 = Some ?w3"
    using len by (simp add: store_byte_def load_def list_update_append)
  have nle: "\<not> sz > UINT32_MAX" using max by simp
  show ?thesis
    unfolding copyFrom_def using nle m c s
    by (simp add: set_str_def fun_eq_iff)
qed

lemma copied_string_props:
  assumes w': "w' = w\<lparr>blocks := blocks w @ [Some (B @ [0])],
                  strs := (strs w)(this := \<lparr>mBuffer = Addr (length (blocks w)),
                                              mSize = ucast (of_nat (length B) :: size_t),
                                              mOwnsBuffer = True\<rparr>)\<rparr>"
    and len: "length B < 2 ^ 32"
  shows "unat (size_hs w' this) = length B \<and> load w' (c_str w' this) = Some (B @ [0])
         \<and> to_std_string w' this = Some B \<and> mOwnsBuffer (strs w' this)"
proof -
  have n: "unat (ucast (of_nat (length B) :: size_t) :: 32 word) = length B"
    using len by (simp add: unat_narrow size_of_nat_le_max unat_size_of_nat)
  show ?thesis
    by (simp add: w' size_hs_def c_str_def to_std_string_def load_def unat_widen n)
qed

text \<open>
  C5. For every byte sequence B of at most \<open>2^32 - 1\<close> bytes, the constructor from a pointer
  to B and the length of B, and the constructor from a host string holding B, return
  normally; afterwards \<^verbatim>\<open>size()\<close> is the length of B, the buffer holds B followed by a
  zero byte, and the conversion to a host string gives B.
\<close>

theorem bytes_round_trip:
  assumes len: "length B \<le> 2 ^ 32 - 1"
  shows "(load w p = Some (B @ rest) \<longrightarrow>
           (\<exists>w'. hidl_string_ptr_len this p (of_nat (length B)) w = Inr w'
                  \<and> unat (size_hs w' this) = length B
                  \<and> load w' (c_str w' this) = Some (B @ [0])
                  \<and> to_std_string w' this = Some B))
       \<and> (std_string_holds w s B \<longrightarrow>
           (\<exists>w'. hidl_string_std this s w = Inr w'
                  \<and> unat (size_hs w' this) = length B
                  \<and> load w' (c_str w' this) = Some (B @ [0])
                  \<and> to_std_string w' this = Some B))"
proof -
  from len have l32: "length B < 2 ^ 32" by simp
  then have l64: "length B < 2 ^ 64" by simp
  have un: "unat (of_nat (length B) :: size_t) = length B"
    using l64 by (rule unat_size_of_nat)
  have mx: "(of_nat (length B) :: size_t) \<le> UINT32_MAX"
    using l32 by (rule size_of_nat_le_max)
  let ?w0 = "hidl_string_default this w"
  have copy: "\<exists>w'. copyFrom this q (of_nat (length B)) ?w0 = Inr w'
                  \<and> unat (size_hs w' this) = length B
                  \<and> load w' (c_str w' this) = Some (B @ [0])
                  \<and> to_std_string w' this = Some B"
    if q: "load w q = Some (B @ r)" for q r
  proof -
    have "load ?w0 q = Some (B @ r)" using q by simp
    from copyFrom_ok [OF this _ mx, of this] un
    have eq: "copyFrom this q (of_nat (length B)) ?w0 =
           Inr (?w0\<lparr>blocks := blocks ?w0 @ [Some (B @ [0])],
                  strs := (strs ?w0)(this := \<lparr>mBuffer = Addr (length (blocks ?w0)),
                                              mSize = ucast (of_nat (length B) :: size_t),
                                              mOwnsBuffer = True\<rparr>)\<rparr>)"
      by simp
    from copied_string_props [OF refl l32, of ?w0 this] eq
    show ?thesis by blast
  qed
  show ?thesis
  proof (intro conjI impI)
    assume "load w p = Some (B @ rest)"
    then show "\<exists>w'. hidl_string_ptr_len this p (of_nat (length B)) w = Inr w'
                  \<and> unat (size_hs w' this) = length B
                  \<and> load w' (c_str w' this) = Some (B @ [0])
                  \<and> to_std_string w' this = Some B"
      unfolding hidl_string_ptr_len_def by (rule copy)
  next
    assume "std_string_holds w s B"
    then have "load w (str_c_str s) = Some (B @ [0])" and "str_size s = of_nat (length B)"
      by (simp_all add: std_string_holds_def)
    then show "\<exists>w'. hidl_string_std this s w = Inr w'
                  \<and> unat (size_hs w' this) = length B
                  \<and> load w' (c_str w' this) = Some (B @ [0])
                  \<and> to_std_string w' this = Some B"
      unfolding hidl_string_std_def using copy [of "str_c_str s" "[0]"] by simp
  qed
qed

theorem bytes_round_trip_witness:
  "length [104, 105 :: byte] \<le> 2 ^ 32 - 1
   \<and> load demo_world (Literal [104, 105]) = Some ([104, 105] @ [0])
   \<and> std_string_holds demo_world \<lparr>str_c_str = Literal [104, 105], str_size = 2\<rparr> [104, 105]
   \<and> (\<exists>w'. hidl_string_ptr_len 0 (Literal [104, 105]) 2 demo_world = Inr w'
            \<and> unat (size_hs w' 0) = length [104, 105 :: byte]
            \<and> load w' (c_str w' 0) = Some [104, 105, 0]
            \<and> to_std_string w' 0 = Some [104, 105])
   \<and> (\<exists>w'. hidl_string_std 0 \<lparr>str_c_str = Literal [104, 105], str_size = 2\<rparr> demo_world = Inr w'
            \<and> unat (size_hs w' 0) = length [104, 105 :: byte]
            \<and> load w' (c_str w' 0) = Some [104, 105, 0]
            \<and> to_std_string w' 0 = Some [104, 105])"
  using bytes_round_trip [of "[104, 105]" demo_world "Literal [104, 105]" "[0]" 0
          "\<lparr>str_c_str = Literal [104, 105], str_size = 2\<rparr>"]
  by (simp add: load_def std_string_holds_def)

subsection \<open>Releasing a buffer\<close>

lemma sentinel_not_addr [simp]: "Addr k \<noteq> kEmptyString" "kEmptyString \<noteq> Addr k"
  by (simp_all add: kEmptyString_def)

lemma released_eq: "strs v a = strs w b \<Longrightarrow> released v a = released w b"
  by (simp add: released_def)

lemma live_block_eq: "blocks v = blocks w \<Longrightarrow> live_block v p = live_block w p"
  by (cases p) simp_all

lemma owned_buffer_live_eq:
  "strs v a = strs w b \<Longrightarrow> blocks v = blocks w \<Longrightarrow>
   owned_buffer_live v a = owned_buffer_live w b"
  using live_block_eq [of v w] by (simp add: owned_buffer_live_def)

lemma clear_borrowed:
  "\<not> mOwnsBuffer (strs w this) \<Longrightarrow>
   clear this w =
     Inr (w\<lparr>strs := (strs w)(this := \<lparr>mBuffer = kEmptyString, mSize = 0, mOwnsBuffer = False\<rparr>)\<rparr>)"
  by (simp add: clear_def set_str_def)

lemma clear_owned:
  "mOwnsBuffer (strs w this) \<Longrightarrow> mBuffer (strs w this) = Addr k \<Longrightarrow>
   k < length (blocks w) \<Longrightarrow> blocks w ! k \<noteq> None \<Longrightarrow>
   clear this w =
     Inr (w\<lparr>blocks := (blocks w)[k := None], freed := freed w @ [Addr k],
            strs := (strs w)(this := \<lparr>mBuffer = kEmptyString, mSize = 0, mOwnsBuffer = False\<rparr>)\<rparr>)"
  by (simp add: clear_def set_str_def free_def)

lemma clear_live:
  assumes "owned_buffer_live w this"
  shows "\<exists>w1. clear this w = Inr w1
           \<and> strs w1 = (strs w)(this := \<lparr>mBuffer = kEmptyString, mSize = 0, mOwnsBuffer = False\<rparr>)
           \<and> freed w1 = freed w @ released w this
           \<and> (\<not> mOwnsBuffer (strs w this) \<longrightarrow> blocks w1 = blocks w)
           \<and> (\<forall>p. live_block w p \<and> p \<notin> set (released w this) \<longrightarrow> live_block w1 p)"
proof (cases "mOwnsBuffer (strs w this)")
  case False
  have "live_block (w\<lparr>strs := f\<rparr>) p = live_block w p" for f p
    by (rule live_block_eq) simp
  with False show ?thesis
    by (simp add: clear_borrowed released_def)
next
  case True
  with assms have "live_block w (mBuffer (strs w this))"
    by (simp add: owned_buffer_live_def)
  then obtain k where k: "mBuffer (strs w this) = Addr k" "k < length (blocks w)"
      "blocks w ! k \<noteq> None"
    by (cases "mBuffer (strs w this)") simp_all
  have "live_block (w\<lparr>blocks := (blocks w)[k := None], freed := freed w @ [Addr k],
            strs := (strs w)(this := \<lparr>mBuffer = kEmptyString, mSize = 0, mOwnsBuffer = False\<rparr>)\<rparr>) p"
    if "live_block w p" "p \<noteq> Addr k" for p
    using that by (cases p) simp_all
  with True k show ?thesis by (simp add: clear_owned released_def)
qed

text \<open>
  C9. For a length above \<open>2^32 - 1\<close>, \<^verbatim>\<open>setToExternal\<close> stops at its size check: the
  state at the fatal log is the state before the call, so \<^verbatim>\<open>clear()\<close> has not run and
  the pointer, length and ownership flag of the object are unchanged.
\<close>

theorem setToExternal_fatal_keeps_state:
  "sz > UINT32_MAX \<Longrightarrow>
   setToExternal this data sz w = Inl (LogFatal ''string size can't exceed 2^32 bytes.'', w)"
  by (simp add: setToExternal_def)

theorem setToExternal_fatal_keeps_state_witness:
  "(0x100000000 :: size_t) > UINT32_MAX
   \<and> setToExternal 0 (Literal [104, 105]) 0x100000000 demo_world
       = Inl (LogFatal ''string size can't exceed 2^32 bytes.'', demo_world)"
  using setToExternal_fatal_keeps_state [of "0x100000000" 0 "Literal [104, 105]" demo_world]
  by (simp add: UINT32_MAX_def)

text \<open>
  C8. For a length of at most \<open>2^32 - 1\<close> and an object whose owned buffer (if any) is a
  live block, \<^verbatim>\<open>setToExternal(p, n)\<close> is \<^verbatim>\<open>clear()\<close> followed by storing \<open>p\<close>,
  \<open>n\<close> and ownership false: the old buffer is passed to \<^verbatim>\<open>free\<close> exactly when it was
  owned, and a later destruction or \<^verbatim>\<open>clear()\<close> releases nothing, so \<open>p\<close> is never
  released. A larger length is fatal.
\<close>

theorem setToExternal_borrows:
  "(sz \<le> UINT32_MAX \<and> owned_buffer_live w this \<longrightarrow>
      (\<exists>w1 w'. clear this w = Inr w1
         \<and> setToExternal this p sz w = Inr w'
         \<and> w' = w1\<lparr>strs := (strs w1)(this := \<lparr>mBuffer = p, mSize = ucast sz, mOwnsBuffer = False\<rparr>)\<rparr>
         \<and> freed w' = freed w @ released w this
         \<and> c_str w' this = p \<and> unat (size_hs w' this) = unat sz \<and> \<not> mOwnsBuffer (strs w' this)
         \<and> (\<exists>w''. hidl_string_dtor this w' = Inr w'' \<and> freed w'' = freed w'
                    \<and> blocks w'' = blocks w')
         \<and> (\<exists>w''. clear this w' = Inr w'' \<and> freed w'' = freed w' \<and> blocks w'' = blocks w')))
   \<and> (sz > UINT32_MAX \<longrightarrow> (\<exists>msg w'. setToExternal this p sz w = Inl (LogFatal msg, w')))"
proof (intro conjI impI)
  assume "sz \<le> UINT32_MAX \<and> owned_buffer_live w this"
  then have mx: "sz \<le> UINT32_MAX" and live: "owned_buffer_live w this" by simp_all
  from mx have nle: "\<not> sz > UINT32_MAX" by simp
  from clear_live [OF live] obtain w1 where
    c: "clear this w = Inr w1" and f: "freed w1 = freed w @ released w this"
    by blast
  let ?w' = "w1\<lparr>strs := (strs w1)(this := \<lparr>mBuffer = p, mSize = ucast sz, mOwnsBuffer = False\<rparr>)\<rparr>"
  have s: "setToExternal this p sz w = Inr ?w'"
    unfolding setToExternal_def using nle c by (simp add: set_str_def)
  have nb: "\<not> mOwnsBuffer (strs ?w' this)" by simp
  have again: "\<exists>w''. clear this ?w' = Inr w'' \<and> freed w'' = freed ?w' \<and> blocks w'' = blocks ?w'"
    using clear_borrowed [OF nb] by simp
  have sz: "unat (size_hs ?w' this) = unat sz"
    using mx by (simp add: size_hs_def unat_widen unat_narrow)
  show "\<exists>w1 w'. clear this w = Inr w1
         \<and> setToExternal this p sz w = Inr w'
         \<and> w' = w1\<lparr>strs := (strs w1)(this := \<lparr>mBuffer = p, mSize = ucast sz, mOwnsBuffer = False\<rparr>)\<rparr>
         \<and> freed w' = freed w @ released w this
         \<and> c_str w' this = p \<and> unat (size_hs w' this) = unat sz \<and> \<not> mOwnsBuffer (strs w' this)
         \<and> (\<exists>w''. hidl_string_dtor this w' = Inr w'' \<and> freed w'' = freed w'
                    \<and> blocks w'' = blocks w')
         \<and> (\<exists>w''. clear this w' = Inr w'' \<and> freed w'' = freed w' \<and> blocks w'' = blocks w')"
    apply (rule exI [of _ w1], rule exI [of _ ?w'])
    using c s sz again f unfolding hidl_string_dtor_def
    by (simp add: c_str_def)
next
  assume "sz > UINT32_MAX"
  then show "\<exists>msg w'. setToExternal this p sz w = Inl (LogFatal msg, w')"
    by (simp add: setToExternal_def)
qed

theorem setToExternal_borrows_witness:
  "(1 :: size_t) \<le> UINT32_MAX \<and> owned_buffer_live demo_owned_world 0
   \<and> (\<exists>w'. setToExternal 0 (Literal [120]) 1 demo_owned_world = Inr w'
          \<and> freed w' = [Addr 0] \<and> c_str w' 0 = Literal [120] \<and> \<not> mOwnsBuffer (strs w' 0)
          \<and> (\<exists>w''. hidl_string_dtor 0 w' = Inr w'' \<and> freed w'' = [Addr 0]))
   \<and> (0x100000000 :: size_t) > UINT32_MAX
   \<and> (\<exists>msg w'. setToExternal 0 (Literal [120]) 0x100000000 demo_owned_world
                  = Inl (LogFatal msg, w'))"
proof -
  have h: "(1 :: size_t) \<le> UINT32_MAX \<and> owned_buffer_live demo_owned_world 0"
    by (simp add: UINT32_MAX_def owned_buffer_live_def demo_owned_world_def demo_world_def)
  have f: "(0x100000000 :: size_t) > UINT32_MAX"
    by (simp add: UINT32_MAX_def)
  have own: "released demo_owned_world 0 = [Addr 0]" "freed demo_owned_world = []"
    by (simp_all add: released_def demo_owned_world_def demo_world_def)
  from setToExternal_borrows [of 1 demo_owned_world 0 "Literal [120]"] h
  obtain w' where "setToExternal 0 (Literal [120]) 1 demo_owned_world = Inr w'"
      "freed w' = freed demo_owned_world
         @ released demo_owned_world 0"
      "c_str w' 0 = Literal [120]" "\<not> mOwnsBuffer (strs w' 0)"
      "\<exists>w''. hidl_string_dtor 0 w' = Inr w'' \<and> freed w'' = freed w' \<and> blocks w'' = blocks w'"
    by blast
  then have "\<exists>w'. setToExternal 0 (Literal [120]) 1 demo_owned_world = Inr w'
          \<and> freed w' = [Addr 0] \<and> c_str w' 0 = Literal [120] \<and> \<not> mOwnsBuffer (strs w' 0)
          \<and> (\<exists>w''. hidl_string_dtor 0 w' = Inr w'' \<and> freed w'' = [Addr 0])"
    using own by auto
  moreover from setToExternal_borrows [of "0x100000000" demo_owned_world 0 "Literal [120]"] f
  have "\<exists>msg w'. setToExternal 0 (Literal [120]) 0x100000000 demo_owned_world
                  = Inl (LogFatal msg, w')"
    by blast
  ultimately show ?thesis using h f by blast
qed

subsection \<open>Moved-from and empty strings\<close>

lemma strlen_hi: "strlen w (Literal [104, 105]) = Some 2"
  by (simp add: strlen_def load_def)

lemma strlen_nil: "strlen w (Literal []) = Some 0"
  by (simp add: strlen_def load_def)

lemma max_simps: "(2 :: size_t) \<le> UINT32_MAX" "(0 :: size_t) \<le> UINT32_MAX"
  by (simp_all add: UINT32_MAX_def)

lemma demo_cstr_hi: "hidl_string_cstr 0 (Literal [104, 105]) demo_world = Inr demo_owned_world"
proof -
  have "load (hidl_string_default 0 demo_world) (Literal [104, 105]) = Some [104, 105, 0]"
    by (simp add: load_def)
  from copyFrom_ok [OF this _ max_simps(1), of 0]
  have "copyFrom 0 (Literal [104, 105]) 2 (hidl_string_default 0 demo_world) = Inr demo_owned_world"
    by (simp add: hidl_string_default_def set_str_def demo_world_def demo_owned_world_def)
  then show ?thesis
    by (simp add: hidl_string_cstr_def strlen_hi Let_def)
qed

text \<open>
  C1. The claim says that a moved-from \<^verbatim>\<open>hidl_string\<close> is reset to the empty sentinel.
  \<^verbatim>\<open>moveFrom\<close> only clears the ownership flag of the source: after constructing
  \<open>x\<close> from "hi" and move-constructing \<open>y\<close> from \<open>x\<close> (move-assigning \<open>x\<close> to an
  empty \<open>y\<close> gives the same state), \<open>x.size()\<close> is still 2,
  \<open>x.empty()\<close> is false and \<open>x.c_str()\<close> is the buffer that \<open>y\<close> now owns; \<open>y\<close> holds
  the original bytes.
\<close>

theorem move_leaves_source_size:
  "hidl_string_cstr 0 (Literal [104, 105]) demo_world = Inr demo_owned_world
   \<and> assign_move 1 0 demo_owned_world = Inr (hidl_string_move 1 0 demo_owned_world)
   \<and> size_hs (hidl_string_move 1 0 demo_owned_world) 0 = 2
   \<and> \<not> empty_hs (hidl_string_move 1 0 demo_owned_world) 0
   \<and> c_str (hidl_string_move 1 0 demo_owned_world) 0 = Addr 0
   \<and> c_str (hidl_string_move 1 0 demo_owned_world) 0 \<noteq> kEmptyString
   \<and> c_str (hidl_string_move 1 0 demo_owned_world) 1 = Addr 0
   \<and> to_std_string (hidl_string_move 1 0 demo_owned_world) 1 = Some [104, 105]"
proof -
  have "\<not> mOwnsBuffer (strs demo_owned_world 1)"
    by (simp add: demo_owned_world_def demo_world_def)
  then have "clear 1 demo_owned_world = Inr (hidl_string_default 1 demo_owned_world)"
    by (simp add: clear_def hidl_string_default_def set_str_def)
  then have a: "assign_move 1 0 demo_owned_world = Inr (hidl_string_move 1 0 demo_owned_world)"
    by (simp add: assign_move_def hidl_string_move_def)
  have rest: "size_hs (hidl_string_move 1 0 demo_owned_world) 0 = 2
   \<and> \<not> empty_hs (hidl_string_move 1 0 demo_owned_world) 0
   \<and> c_str (hidl_string_move 1 0 demo_owned_world) 0 = Addr 0
   \<and> c_str (hidl_string_move 1 0 demo_owned_world) 0 \<noteq> kEmptyString
   \<and> c_str (hidl_string_move 1 0 demo_owned_world) 1 = Addr 0
   \<and> to_std_string (hidl_string_move 1 0 demo_owned_world) 1 = Some [104, 105]"
    by (simp add: demo_owned_world_def demo_world_def hidl_string_move_def moveFrom_def Let_def
          hidl_string_default_def set_str_def size_hs_def empty_hs_def c_str_def
          to_std_string_def load_def)
  show ?thesis
    by (rule conjI [OF demo_cstr_hi conjI [OF a rest]])
qed

text \<open>
  C2, as stated, fails: a \<^verbatim>\<open>hidl_string\<close> constructed from the empty C string has length
  zero, but it owns a freshly allocated buffer instead of pointing to the literal.
\<close>

theorem empty_copy_owns_fresh_buffer:
  "hidl_string_cstr 0 (Literal []) demo_world = Inr demo_empty_copy_world
   \<and> size_hs demo_empty_copy_world 0 = 0
   \<and> empty_hs demo_empty_copy_world 0
   \<and> c_str demo_empty_copy_world 0 \<noteq> kEmptyString
   \<and> mOwnsBuffer (strs demo_empty_copy_world 0)"
proof -
  have "load (hidl_string_default 0 demo_world) (Literal []) = Some [0]"
    by (simp add: load_def)
  from copyFrom_ok [OF this _ max_simps(2), of 0]
  have "copyFrom 0 (Literal []) 0 (hidl_string_default 0 demo_world) = Inr demo_empty_copy_world"
    by (simp add: hidl_string_default_def set_str_def demo_world_def demo_empty_copy_world_def)
  then show ?thesis
    by (simp add: hidl_string_cstr_def strlen_nil Let_def size_hs_def empty_hs_def c_str_def
          demo_empty_copy_world_def)
qed

text \<open>
  C2, amended. A default-constructed \<^verbatim>\<open>hidl_string\<close>, one constructed from a null
  pointer, and any \<^verbatim>\<open>hidl_string\<close> after \<^verbatim>\<open>clear()\<close> has length zero, the process-lifetime
  empty string literal as its buffer and ownership false, so \<^verbatim>\<open>c_str()\<close> is the shared
  empty string and \<^verbatim>\<open>empty()\<close> is true; \<^verbatim>\<open>clear()\<close> returns whenever the owned buffer
  is a live block. A zero-length string made by copying zero bytes owns a fresh one-byte
  block holding a zero byte.
\<close>

theorem empty_sentinel_established:
  "strs (hidl_string_default this w) this
     = \<lparr>mBuffer = kEmptyString, mSize = 0, mOwnsBuffer = False\<rparr>
   \<and> c_str (hidl_string_default this w) this = kEmptyString
   \<and> empty_hs (hidl_string_default this w) this
   \<and> load w kEmptyString = Some [0]
   \<and> hidl_string_cstr this nullptr w = Inr (hidl_string_default this w)
   \<and> (owned_buffer_live w this \<longrightarrow> (\<exists>w'. clear this w = Inr w'))
   \<and> (\<forall>w'. clear this w = Inr w' \<longrightarrow>
         strs w' this = \<lparr>mBuffer = kEmptyString, mSize = 0, mOwnsBuffer = False\<rparr>
         \<and> c_str w' this = kEmptyString \<and> empty_hs w' this)
   \<and> (\<forall>src. load w data = Some src \<longrightarrow>
         (\<exists>w'. copyFrom this data 0 w = Inr w' \<and> empty_hs w' this \<and> mOwnsBuffer (strs w' this)
               \<and> c_str w' this = Addr (length (blocks w))
               \<and> c_str w' this \<noteq> kEmptyString
               \<and> load w' (c_str w' this) = Some [0]))"
proof -
  have d: "strs (hidl_string_default this w) this
            = \<lparr>mBuffer = kEmptyString, mSize = 0, mOwnsBuffer = False\<rparr>"
    by (simp add: hidl_string_default_def set_str_def)
  have l: "load w kEmptyString = Some [0]"
    by (simp add: load_def kEmptyString_def)
  have n: "hidl_string_cstr this nullptr w = Inr (hidl_string_default this w)"
    by (simp add: hidl_string_cstr_def)
  have c1: "\<exists>w'. clear this w = Inr w'" if "owned_buffer_live w this"
    using clear_live [OF that] by blast
  have c2: "strs w' this = \<lparr>mBuffer = kEmptyString, mSize = 0, mOwnsBuffer = False\<rparr>
         \<and> c_str w' this = kEmptyString \<and> empty_hs w' this" if "clear this w = Inr w'" for w'
    using that by (auto simp: clear_def set_str_def c_str_def empty_hs_def split: option.splits)
  have z: "\<exists>w'. copyFrom this data 0 w = Inr w' \<and> empty_hs w' this \<and> mOwnsBuffer (strs w' this)
               \<and> c_str w' this = Addr (length (blocks w))
               \<and> c_str w' this \<noteq> kEmptyString
               \<and> load w' (c_str w' this) = Some [0]" if "load w data = Some src" for src
    using copyFrom_ok [OF that _ max_simps(2), of this]
    by (simp add: empty_hs_def c_str_def load_def)
  show ?thesis
    using d l n c1 c2 z by (simp add: c_str_def empty_hs_def)
qed

theorem empty_sentinel_established_witness:
  "owned_buffer_live demo_owned_world 0
   \<and> (\<exists>w'. clear 0 demo_owned_world = Inr w'
          \<and> strs w' 0 = \<lparr>mBuffer = kEmptyString, mSize = 0, mOwnsBuffer = False\<rparr>
          \<and> c_str w' 0 = kEmptyString \<and> empty_hs w' 0)
   \<and> load demo_owned_world (Literal []) = Some [0]
   \<and> (\<exists>w'. copyFrom 0 (Literal []) 0 demo_owned_world = Inr w' \<and> empty_hs w' 0
          \<and> mOwnsBuffer (strs w' 0) \<and> c_str w' 0 \<noteq> kEmptyString)"
proof -
  have h: "owned_buffer_live demo_owned_world 0"
    by (simp add: owned_buffer_live_def demo_owned_world_def demo_world_def)
  have l: "load demo_owned_world (Literal []) = Some [0]"
    by (simp add: load_def)
  from empty_sentinel_established [of 0 demo_owned_world "Literal []"] h l
  show ?thesis by blast
qed

subsection \<open>Moving a hidl\_string\<close>

lemma moveFrom_distinct:
  assumes "this \<noteq> other"
  shows "moveFrom this other w =
           w\<lparr>strs := (strs w)(this := strs w other,
                              other := (strs w other)\<lparr>mOwnsBuffer := False\<rparr>)\<rparr>"
proof -
  have r: "\<lparr>mBuffer = mBuffer s, mSize = mSize s, mOwnsBuffer = mOwnsBuffer s\<rparr> = s"
    for s :: hidl_string
    by (cases s) simp
  show ?thesis
    using assms by (simp add: moveFrom_def set_str_def Let_def r fun_eq_iff)
qed

lemma destroy_both:
  assumes ne: "this \<noteq> other"
    and src: "\<not> mOwnsBuffer (strs v other)"
    and live: "owned_buffer_live v this"
  shows "(\<exists>v2 v3. clear other v = Inr v2 \<and> freed v2 = freed v \<and> blocks v2 = blocks v
            \<and> hidl_string_dtor this v2 = Inr v3
            \<and> freed v3 = freed v @ released v this)
       \<and> (\<exists>v2 v3. hidl_string_dtor this v = Inr v2 \<and> hidl_string_dtor other v2 = Inr v3
            \<and> freed v3 = freed v @ released v this)"
proof (intro conjI)
  let ?v2 = "v\<lparr>strs := (strs v)(other := \<lparr>mBuffer = kEmptyString, mSize = 0, mOwnsBuffer = False\<rparr>)\<rparr>"
  have c: "clear other v = Inr ?v2" using src by (rule clear_borrowed)
  have same: "strs ?v2 this = strs v this" "blocks ?v2 = blocks v" using ne by simp_all
  have "owned_buffer_live ?v2 this"
    using live owned_buffer_live_eq [OF same] by simp
  from clear_live [OF this]
  have "\<exists>v3. hidl_string_dtor this ?v2 = Inr v3 \<and> freed v3 = freed v @ released v this"
    unfolding released_eq [OF same(1)] by (auto simp: hidl_string_dtor_def)
  with c show "\<exists>v2 v3. clear other v = Inr v2 \<and> freed v2 = freed v \<and> blocks v2 = blocks v
            \<and> hidl_string_dtor this v2 = Inr v3
            \<and> freed v3 = freed v @ released v this"
    by auto
next
  from clear_live [OF live] obtain v2 where
    d: "hidl_string_dtor this v = Inr v2"
    and f: "freed v2 = freed v @ released v this"
    and o: "strs v2 = (strs v)(this := \<lparr>mBuffer = kEmptyString, mSize = 0, mOwnsBuffer = False\<rparr>)"
    by (auto simp: hidl_string_dtor_def)
  from o src ne have "\<not> mOwnsBuffer (strs v2 other)" by simp
  from clear_borrowed [OF this] f
  have "\<exists>v3. hidl_string_dtor other v2 = Inr v3 \<and> freed v3 = freed v @ released v this"
    by (simp add: hidl_string_dtor_def)
  with d show "\<exists>v2 v3. hidl_string_dtor this v = Inr v2 \<and> hidl_string_dtor other v2 = Inr v3
            \<and> freed v3 = freed v @ released v this"
    by blast
qed

lemma moveFrom_source:
  assumes ne: "this \<noteq> other"
  shows "\<not> mOwnsBuffer (strs (moveFrom this other v) other)"
    and "mBuffer (strs (moveFrom this other v) other) = mBuffer (strs v other)"
    and "mSize (strs (moveFrom this other v) other) = mSize (strs v other)"
    and "strs (moveFrom this other v) this = strs v other"
    and "freed (moveFrom this other v) = freed v"
    and "blocks (moveFrom this other v) = blocks v"
  using ne by (simp_all add: moveFrom_distinct [OF ne])

lemma moveFrom_then_destroy:
  assumes ne: "this \<noteq> other"
    and live: "owned_buffer_live v other"
  shows "\<exists>w2 w3. clear other (moveFrom this other v) = Inr w2
           \<and> freed w2 = freed (moveFrom this other v)
           \<and> blocks w2 = blocks (moveFrom this other v)
           \<and> hidl_string_dtor this w2 = Inr w3
           \<and> freed w3 = freed (moveFrom this other v) @ released v other"
    and "\<exists>w2 w3. hidl_string_dtor this (moveFrom this other v) = Inr w2
           \<and> hidl_string_dtor other w2 = Inr w3
           \<and> freed w3 = freed (moveFrom this other v) @ released v other"
proof -
  let ?M = "moveFrom this other v"
  note s = moveFrom_source [OF ne, of v]
  have live1: "owned_buffer_live ?M this"
    using live owned_buffer_live_eq [OF s(4) s(6)] by simp
  have rel: "released ?M this = released v other"
    by (rule released_eq [OF s(4)])
  note d = destroy_both [OF ne s(1) live1, unfolded rel]
  from d show "\<exists>w2 w3. clear other ?M = Inr w2
           \<and> freed w2 = freed ?M \<and> blocks w2 = blocks ?M
           \<and> hidl_string_dtor this w2 = Inr w3
           \<and> freed w3 = freed ?M @ released v other"
    by (rule conjunct1)
  from d show "\<exists>w2 w3. hidl_string_dtor this ?M = Inr w2
           \<and> hidl_string_dtor other w2 = Inr w3
           \<and> freed w3 = freed ?M @ released v other"
    by (rule conjunct2)
qed

text \<open>
  C10. After move construction or move assignment of a \<^verbatim>\<open>hidl_string\<close> (source and
  destination distinct objects, owned buffers live and not shared between two owners), the
  source keeps its buffer pointer and length but its ownership flag is false, and the
  destination has the source's old pointer, length and flag. Clearing or destroying the
  source then releases nothing, and destroying source and destination in either order
  returns normally and passes the transferred buffer to \<^verbatim>\<open>free\<close> exactly once if it was
  owned and never otherwise: no buffer is released twice.
\<close>

theorem moved_from_string_releases_nothing:
  assumes ne: "this \<noteq> other"
    and live: "owned_buffer_live w other"
  shows "(\<not> mOwnsBuffer (strs (hidl_string_move this other w) other)
     \<and> mBuffer (strs (hidl_string_move this other w) other) = mBuffer (strs w other)
     \<and> mSize (strs (hidl_string_move this other w) other) = mSize (strs w other)
     \<and> strs (hidl_string_move this other w) this = strs w other
     \<and> freed (hidl_string_move this other w) = freed w
     \<and> (\<exists>w2 w3. clear other (hidl_string_move this other w) = Inr w2
           \<and> freed w2 = freed (hidl_string_move this other w)
           \<and> blocks w2 = blocks (hidl_string_move this other w)
           \<and> hidl_string_dtor this w2 = Inr w3
           \<and> freed w3 = freed w @ released w other)
     \<and> (\<exists>w2 w3. hidl_string_dtor this (hidl_string_move this other w) = Inr w2
           \<and> hidl_string_dtor other w2 = Inr w3
           \<and> freed w3 = freed w @ released w other))
   \<and> (owned_buffer_live w this
        \<and> \<not> (mOwnsBuffer (strs w this) \<and> mOwnsBuffer (strs w other)
               \<and> mBuffer (strs w this) = mBuffer (strs w other)) \<longrightarrow>
       (\<exists>w1. assign_move this other w = Inr w1
         \<and> \<not> mOwnsBuffer (strs w1 other)
         \<and> mBuffer (strs w1 other) = mBuffer (strs w other)
         \<and> mSize (strs w1 other) = mSize (strs w other)
         \<and> strs w1 this = strs w other
         \<and> freed w1 = freed w @ released w this
         \<and> (\<exists>w2 w3. clear other w1 = Inr w2 \<and> freed w2 = freed w1 \<and> blocks w2 = blocks w1
               \<and> hidl_string_dtor this w2 = Inr w3
               \<and> freed w3 = freed w1 @ released w other)
         \<and> (\<exists>w2 w3. hidl_string_dtor this w1 = Inr w2 \<and> hidl_string_dtor other w2 = Inr w3
               \<and> freed w3 = freed w1 @ released w other)))"
    (is "?ctor \<and> (?pre \<longrightarrow> ?assign)")
proof (rule conjI)
  let ?v = "hidl_string_default this w"
  have o: "strs ?v other = strs w other" "freed ?v = freed w" "blocks ?v = blocks w"
    using ne by (simp_all add: hidl_string_default_def set_str_def)
  have lv: "owned_buffer_live ?v other"
    using live owned_buffer_live_eq [OF o(1) o(3)] by simp
  have rel: "released ?v other = released w other"
    by (rule released_eq [OF o(1)])
  note s = moveFrom_source [OF ne, of ?v, unfolded o, folded hidl_string_move_def]
  note d = moveFrom_then_destroy [OF ne lv, unfolded rel, folded hidl_string_move_def,
             unfolded s(5)]
  from s(1-5) d show ?ctor by simp
next
  show "?pre \<longrightarrow> ?assign"
  proof (rule impI)
    assume a: ?pre
    then have live_this: "owned_buffer_live w this" by (rule conjunct1)
    from clear_live [OF live_this] obtain v where
      c: "clear this w = Inr v"
      and sv: "strs v = (strs w)(this := \<lparr>mBuffer = kEmptyString, mSize = 0, mOwnsBuffer = False\<rparr>)"
      and fv: "freed v = freed w @ released w this"
      and keep: "\<forall>p. live_block w p \<and> p \<notin> set (released w this) \<longrightarrow> live_block v p"
      by blast
    have o: "strs v other = strs w other" using ne by (simp add: sv)
    have lv: "owned_buffer_live v other"
    proof (cases "mOwnsBuffer (strs w other)")
      case False
      then show ?thesis by (simp add: owned_buffer_live_def o)
    next
      case True
      with live have l: "live_block w (mBuffer (strs w other))"
        by (simp add: owned_buffer_live_def)
      from a True have "mBuffer (strs w other) \<notin> set (released w this)"
        by (auto simp: released_def)
      with l keep have "live_block v (mBuffer (strs w other))" by blast
      then show ?thesis by (simp add: owned_buffer_live_def o)
    qed
    have rel: "released v other = released w other"
      by (rule released_eq [OF o])
    have am: "assign_move this other w = Inr (moveFrom this other v)"
      using ne c by (simp add: assign_move_def)
    note s = moveFrom_source [OF ne, of v, unfolded o fv]
    note d = moveFrom_then_destroy [OF ne lv, unfolded rel]
    from am s(1-5) d show ?assign
      by (intro exI [of _ "moveFrom this other v"]) simp
  qed
qed

theorem moved_from_string_releases_nothing_witness:
  "(1 :: nat) \<noteq> 0 \<and> owned_buffer_live demo_owned_world 0
   \<and> owned_buffer_live demo_owned_world 1
   \<and> \<not> (mOwnsBuffer (strs demo_owned_world 1) \<and> mOwnsBuffer (strs demo_owned_world 0)
          \<and> mBuffer (strs demo_owned_world 1) = mBuffer (strs demo_owned_world 0))
   \<and> \<not> mOwnsBuffer (strs (hidl_string_move 1 0 demo_owned_world) 0)
   \<and> mBuffer (strs (hidl_string_move 1 0 demo_owned_world) 0) = Addr 0
   \<and> mSize (strs (hidl_string_move 1 0 demo_owned_world) 0) = 2
   \<and> (\<exists>w2 w3. hidl_string_dtor 1 (hidl_string_move 1 0 demo_owned_world) = Inr w2
          \<and> hidl_string_dtor 0 w2 = Inr w3 \<and> freed w3 = [Addr 0])
   \<and> (\<exists>w1. assign_move 1 0 demo_owned_world = Inr w1
          \<and> \<not> mOwnsBuffer (strs w1 0) \<and> mBuffer (strs w1 0) = Addr 0
          \<and> (\<exists>w2 w3. hidl_string_dtor 1 w1 = Inr w2 \<and> hidl_string_dtor 0 w2 = Inr w3
                 \<and> freed w3 = [Addr 0]))"
proof -
  have ne: "(1 :: nat) \<noteq> 0" by simp
  have l0: "owned_buffer_live demo_owned_world 0"
    by (simp add: owned_buffer_live_def demo_owned_world_def demo_world_def)
  have pre: "owned_buffer_live demo_owned_world 1
   \<and> \<not> (mOwnsBuffer (strs demo_owned_world 1) \<and> mOwnsBuffer (strs demo_owned_world 0)
          \<and> mBuffer (strs demo_owned_world 1) = mBuffer (strs demo_owned_world 0))"
    by (simp add: owned_buffer_live_def demo_owned_world_def demo_world_def)
  have vals: "released demo_owned_world 0 = [Addr 0]" "released demo_owned_world 1 = []"
      "freed demo_owned_world = []" "mBuffer (strs demo_owned_world 0) = Addr 0"
      "mSize (strs demo_owned_world 0) = 2"
    by (simp_all add: released_def demo_owned_world_def demo_world_def)
  note t = moved_from_string_releases_nothing [OF ne l0, unfolded vals]
  from t [THEN conjunct1] have ctor:
    "\<not> mOwnsBuffer (strs (hidl_string_move 1 0 demo_owned_world) 0)
     \<and> mBuffer (strs (hidl_string_move 1 0 demo_owned_world) 0) = Addr 0
     \<and> mSize (strs (hidl_string_move 1 0 demo_owned_world) 0) = 2
     \<and> (\<exists>w2 w3. hidl_string_dtor 1 (hidl_string_move 1 0 demo_owned_world) = Inr w2
          \<and> hidl_string_dtor 0 w2 = Inr w3 \<and> freed w3 = [Addr 0])"
    by simp
  have own1: "\<not> mOwnsBuffer (strs demo_owned_world 1)"
    by (simp add: demo_owned_world_def demo_world_def)
  from t [THEN conjunct2] pre own1 have asg:
    "\<exists>w1. assign_move 1 0 demo_owned_world = Inr w1
          \<and> \<not> mOwnsBuffer (strs w1 0) \<and> mBuffer (strs w1 0) = Addr 0
          \<and> (\<exists>w2 w3. hidl_string_dtor 1 w1 = Inr w2 \<and> hidl_string_dtor 0 w2 = Inr w3
                 \<and> freed w3 = [Addr 0])"
    by auto
  from ne l0 pre ctor asg show ?thesis by blast
qed

subsection \<open>Copying a hidl\_handle\<close>

lemma hidl_handle_all_fields [simp]:
  "h\<lparr>mHandle := a, mOwnsHandle := b\<rparr> = \<lparr>mHandle = a, mOwnsHandle = b\<rparr>" for h :: hidl_handle
  by (cases h) simp

lemma live_record_eq: "records v = records w \<Longrightarrow> live_record v p = live_record w p"
  by (cases p) simp_all

lemma live_record_bound: "live_record w p \<Longrightarrow> p \<noteq> Handle (length (records w))"
  by (cases p) auto

lemma freeHandle_not_owning: "\<not> owns_record w this \<Longrightarrow> freeHandle this w = Inr w"
  by (auto simp: freeHandle_def owns_record_def)

lemma freeHandle_owning:
  assumes "mOwnsHandle (handles w this)" and "mHandle (handles w this) = Handle n"
    and "n < length (records w)" and "records w ! n"
  shows "freeHandle this w =
     Inr (w\<lparr>records := (records w)[n := False],
            calls := calls w @ [Close (Handle n), Delete (Handle n)],
            handles := (handles w)(this := (handles w this)\<lparr>mHandle := NullHandle\<rparr>)\<rparr>)"
  using assms
  by (simp add: freeHandle_def native_handle_close_def native_handle_delete_def set_handle_def)

lemma freeHandle_live:
  assumes "owned_record_live w this"
  shows "\<exists>v. freeHandle this w = Inr v
           \<and> calls v = calls w @ release_calls w this
           \<and> clone_fails v = clone_fails w
           \<and> length (records v) = length (records w)
           \<and> (\<forall>i. i \<noteq> this \<longrightarrow> handles v i = handles w i)
           \<and> \<not> owns_record v this
           \<and> (\<not> owns_record w this \<longrightarrow> v = w)
           \<and> (\<forall>p. live_record w p \<and> \<not> (owns_record w this \<and> p = mHandle (handles w this))
                  \<longrightarrow> live_record v p)
           \<and> (owns_record w this \<longrightarrow> \<not> live_record v (mHandle (handles w this)))"
proof (cases "owns_record w this")
  case False
  then show ?thesis
    by (simp add: freeHandle_not_owning release_calls_def)
next
  case True
  then have own: "mOwnsHandle (handles w this)" and nn: "mHandle (handles w this) \<noteq> NullHandle"
    by (simp_all add: owns_record_def)
  from True assms have "live_record w (mHandle (handles w this))"
    by (simp add: owned_record_live_def)
  with nn obtain n where n: "mHandle (handles w this) = Handle n" "n < length (records w)"
      "records w ! n"
    by (cases "mHandle (handles w this)") simp_all
  let ?v = "w\<lparr>records := (records w)[n := False],
            calls := calls w @ [Close (Handle n), Delete (Handle n)],
            handles := (handles w)(this := (handles w this)\<lparr>mHandle := NullHandle\<rparr>)\<rparr>"
  have f: "freeHandle this w = Inr ?v"
    using own n by (rule freeHandle_owning)
  have keep: "live_record ?v p" if "live_record w p" "p \<noteq> Handle n" for p
    using that by (cases p) simp_all
  have gone: "\<not> live_record ?v (Handle n)"
    using n by simp
  show ?thesis
    using True f n keep gone
    by (simp add: release_calls_def owns_record_def)
qed

lemma copy_after_free:
  assumes ne: "this \<noteq> other" and f: "freeHandle this w = Inr v"
  shows "mHandle (handles v other) = NullHandle \<Longrightarrow>
           handle_assign_copy this other w =
             Inr (v\<lparr>handles := (handles v)(this := \<lparr>mHandle = NullHandle, mOwnsHandle = False\<rparr>)\<rparr>)"
    and "mHandle (handles v other) = Handle p \<Longrightarrow> live_record v (Handle p) \<Longrightarrow>
         \<not> clone_fails v \<Longrightarrow>
           handle_assign_copy this other w =
             Inr (v\<lparr>records := records v @ [True],
                    calls := calls v @ [Clone (Handle p) (Handle (length (records v)))],
                    handles := (handles v)(this := \<lparr>mHandle = Handle (length (records v)),
                                                      mOwnsHandle = True\<rparr>)\<rparr>)"
    and "mHandle (handles v other) = Handle p \<Longrightarrow> live_record v (Handle p) \<Longrightarrow>
         clone_fails v \<Longrightarrow>
           handle_assign_copy this other w =
             Inl (LogFatal ''Failed to clone native_handle in hidl_handle.'',
                  v\<lparr>calls := calls v @ [Clone (Handle p) NullHandle],
                    handles := (handles v)(this := (handles v this)\<lparr>mHandle := NullHandle\<rparr>)\<rparr>)"
  using ne f
  by (simp_all add: handle_assign_copy_def native_handle_clone_def set_handle_def Let_def)

lemma cloned_then_destroyed:
  assumes ne: "this \<noteq> other"
    and w': "w' = v\<lparr>records := records v @ [True],
                    calls := calls v @ [Clone (Handle p) (Handle (length (records v)))],
                    handles := (handles v)(this := \<lparr>mHandle = Handle (length (records v)),
                                                      mOwnsHandle = True\<rparr>)\<rparr>"
    and p: "live_record v (Handle p)"
  shows "mHandle (handles w' this) = Handle (length (records v))"
    and "mHandle (handles w' this) \<noteq> Handle p"
    and "mOwnsHandle (handles w' this)"
    and "handles w' other = handles v other"
    and "live_record w' (mHandle (handles w' this))"
    and "live_record w' (Handle p)"
    and "calls w' = calls v @ [Clone (Handle p) (mHandle (handles w' this))]"
    and "\<exists>w''. hidl_handle_dtor this w' = Inr w''
           \<and> calls w'' = calls w' @ [Close (mHandle (handles w' this)),
                                       Delete (mHandle (handles w' this))]
           \<and> handles w'' other = handles v other
           \<and> live_record w'' (Handle p)"
proof -
  from p have pl: "p < length (records v)" "records v ! p" by simp_all
  show "mHandle (handles w' this) = Handle (length (records v))" by (simp add: w')
  show "mHandle (handles w' this) \<noteq> Handle p" using pl by (simp add: w')
  show "mOwnsHandle (handles w' this)" by (simp add: w')
  show "handles w' other = handles v other" using ne by (simp add: w')
  show "live_record w' (mHandle (handles w' this))" by (simp add: w')
  show "live_record w' (Handle p)" using pl by (simp add: w' nth_append)
  show "calls w' = calls v @ [Clone (Handle p) (mHandle (handles w' this))]" by (simp add: w')
  have "freeHandle this w' =
     Inr (w'\<lparr>records := (records w')[length (records v) := False],
            calls := calls w' @ [Close (Handle (length (records v))),
                                 Delete (Handle (length (records v)))],
            handles := (handles w')(this := (handles w' this)\<lparr>mHandle := NullHandle\<rparr>)\<rparr>)"
    by (rule freeHandle_owning) (simp_all add: w')
  then show "\<exists>w''. hidl_handle_dtor this w' = Inr w''
           \<and> calls w'' = calls w' @ [Close (mHandle (handles w' this)),
                                       Delete (mHandle (handles w' this))]
           \<and> handles w'' other = handles v other
           \<and> live_record w'' (Handle p)"
    using ne pl by (simp add: hidl_handle_dtor_def w' nth_append)
qed

lemma assign_copy_cases:
  assumes ne: "this \<noteq> other"
    and live: "owned_record_live w this"
    and na: "\<not> (owns_record w this \<and> mHandle (handles w this) = mHandle (handles w other))"
    and src: "mHandle (handles w other) \<noteq> NullHandle \<longrightarrow>
                live_record w (mHandle (handles w other))"
  shows "mHandle (handles w other) = NullHandle \<Longrightarrow>
      (\<exists>w'. handle_assign_copy this other w = Inr w'
          \<and> handles w' this = \<lparr>mHandle = NullHandle, mOwnsHandle = False\<rparr>
          \<and> handles w' other = handles w other
          \<and> calls w' = calls w @ release_calls w this)"
    and "mHandle (handles w other) \<noteq> NullHandle \<Longrightarrow> \<not> clone_fails w \<Longrightarrow>
      (\<exists>w'. handle_assign_copy this other w = Inr w'
          \<and> mHandle (handles w' this) \<noteq> NullHandle
          \<and> mHandle (handles w' this) \<noteq> mHandle (handles w other)
          \<and> \<not> live_record w (mHandle (handles w' this))
          \<and> mOwnsHandle (handles w' this)
          \<and> handles w' other = handles w other
          \<and> live_record w' (mHandle (handles w' this))
          \<and> live_record w' (mHandle (handles w other))
          \<and> calls w' = calls w @ release_calls w this @ [Clone (mHandle (handles w other)) (mHandle (handles w' this))]
          \<and> (\<exists>w''. hidl_handle_dtor this w' = Inr w''
                \<and> calls w'' = calls w' @ [Close (mHandle (handles w' this)),
                                            Delete (mHandle (handles w' this))]
                \<and> handles w'' other = handles w other
                \<and> live_record w'' (mHandle (handles w other))))"
    and "mHandle (handles w other) \<noteq> NullHandle \<Longrightarrow> clone_fails w \<Longrightarrow>
      (\<exists>w'. handle_assign_copy this other w
            = Inl (LogFatal ''Failed to clone native_handle in hidl_handle.'', w'))"
proof -
  from freeHandle_live [OF live] obtain v where
    f: "freeHandle this w = Inr v"
    and cv: "calls v = calls w @ release_calls w this"
    and fv: "clone_fails v = clone_fails w"
    and lv: "length (records v) = length (records w)"
    and hv: "\<forall>i. i \<noteq> this \<longrightarrow> handles v i = handles w i"
    and keep: "\<forall>p. live_record w p \<and> \<not> (owns_record w this \<and> p = mHandle (handles w this))
                  \<longrightarrow> live_record v p"
    by blast
  from hv ne have ho: "handles v other = handles w other" by simp
  note c = copy_after_free [OF ne f]
  {
    assume "mHandle (handles w other) = NullHandle"
    with c(1) ho cv ne
    show "(\<exists>w'. handle_assign_copy this other w = Inr w'
          \<and> handles w' this = \<lparr>mHandle = NullHandle, mOwnsHandle = False\<rparr>
          \<and> handles w' other = handles w other
          \<and> calls w' = calls w @ release_calls w this)"
      by simp
  }
  {
    assume nn: "mHandle (handles w other) \<noteq> NullHandle"
    then obtain p where p: "mHandle (handles w other) = Handle p"
      by (cases "mHandle (handles w other)") simp_all
    with src have "live_record w (Handle p)" by simp
    moreover from na p have "\<not> (owns_record w this \<and> Handle p = mHandle (handles w this))"
      by auto
    ultimately have pv: "live_record v (Handle p)"
      using keep [THEN spec, of "Handle p"] by blast
    have fresh: "\<not> live_record w (Handle (length (records w)))" by simp
    {
      assume "\<not> clone_fails w"
      with c(2) [of p] p ho pv fv
      have r: "handle_assign_copy this other w =
             Inr (v\<lparr>records := records v @ [True],
                    calls := calls v @ [Clone (Handle p) (Handle (length (records v)))],
                    handles := (handles v)(this := \<lparr>mHandle = Handle (length (records v)),
                                                      mOwnsHandle = True\<rparr>)\<rparr>)"
        by simp
      note t = cloned_then_destroyed [OF ne refl pv]
      show "(\<exists>w'. handle_assign_copy this other w = Inr w'
          \<and> mHandle (handles w' this) \<noteq> NullHandle
          \<and> mHandle (handles w' this) \<noteq> mHandle (handles w other)
          \<and> \<not> live_record w (mHandle (handles w' this))
          \<and> mOwnsHandle (handles w' this)
          \<and> handles w' other = handles w other
          \<and> live_record w' (mHandle (handles w' this))
          \<and> live_record w' (mHandle (handles w other))
          \<and> calls w' = calls w @ release_calls w this @ [Clone (mHandle (handles w other)) (mHandle (handles w' this))]
          \<and> (\<exists>w''. hidl_handle_dtor this w' = Inr w''
                \<and> calls w'' = calls w' @ [Close (mHandle (handles w' this)),
                                            Delete (mHandle (handles w' this))]
                \<and> handles w'' other = handles w other
                \<and> live_record w'' (mHandle (handles w other))))"
        using r t fresh
        apply -
        apply (rule exI [of _ "v\<lparr>records := records v @ [True],
                    calls := calls v @ [Clone (Handle p) (Handle (length (records v)))],
                    handles := (handles v)(this := \<lparr>mHandle = Handle (length (records v)),
                                                      mOwnsHandle = True\<rparr>)\<rparr>"])
        apply (simp add: p ho lv cv)
        done
    }
    {
      assume "clone_fails w"
      with c(3) [of p] p ho pv fv
      show "(\<exists>w'. handle_assign_copy this other w
            = Inl (LogFatal ''Failed to clone native_handle in hidl_handle.'', w'))"
        by simp
    }
  }
qed

text \<open>
  C6, as stated, fails for copy assignment: when the destination owns the very record
  that the source borrows (\<^verbatim>\<open>hidl_handle b(r); a.setTo(r, true); a = b;\<close>), the
  assignment only compares the object addresses, so \<^verbatim>\<open>freeHandle\<close> closes and deletes
  the record before \<^verbatim>\<open>native_handle_clone\<close> is applied to it. Nothing is cloned, and the
  source is left pointing to a released record.
\<close>

theorem copy_assign_from_borrower_of_own_record:
  "hidl_handle_raw 0 (Handle 0) demo_handle_world = demo_handle_world
   \<and> setTo 1 (Handle 0) True demo_handle_world = Inr demo_alias_world
   \<and> mHandle (handles demo_alias_world 0) = Handle 0
   \<and> live_record demo_alias_world (Handle 0)
   \<and> owned_record_live demo_alias_world 1
   \<and> \<not> clone_fails demo_alias_world
   \<and> handle_assign_copy 1 0 demo_alias_world = Inl (Undefined, demo_alias_freed_world)
   \<and> calls demo_alias_freed_world = [Close (Handle 0), Delete (Handle 0)]
   \<and> \<not> live_record demo_alias_freed_world (Handle 0)
   \<and> mHandle (handles demo_alias_freed_world 0) = Handle 0"
proof -
  have raw: "hidl_handle_raw 0 (Handle 0) demo_handle_world = demo_handle_world"
    by (simp add: hidl_handle_raw_def set_handle_def demo_handle_world_def)
  have "\<not> owns_record demo_handle_world 1"
    by (simp add: owns_record_def demo_handle_world_def)
  then have "freeHandle 1 demo_handle_world = Inr demo_handle_world"
    by (rule freeHandle_not_owning)
  then have st: "setTo 1 (Handle 0) True demo_handle_world = Inr demo_alias_world"
    by (simp add: setTo_def set_handle_def demo_alias_world_def)
  have vals: "mHandle (handles demo_alias_world 0) = Handle 0"
      "live_record demo_alias_world (Handle 0)"
      "owned_record_live demo_alias_world 1"
      "\<not> clone_fails demo_alias_world"
    by (simp_all add: demo_alias_world_def demo_handle_world_def owned_record_live_def)
  have "freeHandle 1 demo_alias_world = Inr demo_alias_freed_world"
    by (simp add: freeHandle_def native_handle_close_def native_handle_delete_def
          set_handle_def demo_alias_freed_world_def demo_alias_world_def demo_handle_world_def)
  moreover have "mHandle (handles demo_alias_freed_world 0) = Handle 0"
      "\<not> live_record demo_alias_freed_world (Handle 0)"
      "calls demo_alias_freed_world = [Close (Handle 0), Delete (Handle 0)]"
    by (simp_all add: demo_alias_freed_world_def demo_alias_world_def demo_handle_world_def)
  ultimately have ac:
      "handle_assign_copy 1 0 demo_alias_world = Inl (Undefined, demo_alias_freed_world)"
      "calls demo_alias_freed_world = [Close (Handle 0), Delete (Handle 0)]"
      "\<not> live_record demo_alias_freed_world (Handle 0)"
      "mHandle (handles demo_alias_freed_world 0) = Handle 0"
    by (simp_all add: handle_assign_copy_def native_handle_clone_def)
  from raw st vals ac show ?thesis by blast
qed

text \<open>
  C6, amended. Copying a \<^verbatim>\<open>hidl_handle\<close> \<open>other\<close> into a distinct object \<open>this\<close>, by
  the copy constructor, or by copy assignment when the destination's own record, if it
  owns one, is allocated and is not the source's record. If the source is null the copy
  is null and non-owning. If the source holds an allocated record and the clone primitive
  succeeds, the copy holds the record returned by \<^verbatim>\<open>native_handle_clone\<close>, which is a
  different pointer from the source's and was not allocated before; the copy owns it
  whatever the source's flag is; the source is unchanged; and destroying the copy closes
  and deletes the clone only, so the source's record stays allocated. If the clone
  primitive returns null the call ends in the fatal log. Assigning an object to itself
  changes nothing.
\<close>

theorem handle_copy_clones:
  assumes ne: "this \<noteq> other"
    and src: "mHandle (handles w other) \<noteq> NullHandle \<longrightarrow>
                live_record w (mHandle (handles w other))"
  shows
   "((mHandle (handles w other) = NullHandle \<longrightarrow>
       (\<exists>w'. hidl_handle_copy this other w = Inr w'
           \<and> handles w' this = \<lparr>mHandle = NullHandle, mOwnsHandle = False\<rparr>
           \<and> handles w' other = handles w other
           \<and> calls w' = calls w))
    \<and> (mHandle (handles w other) \<noteq> NullHandle \<and> \<not> clone_fails w \<longrightarrow>
       (\<exists>w'. hidl_handle_copy this other w = Inr w'
           \<and> mHandle (handles w' this) \<noteq> NullHandle
           \<and> mHandle (handles w' this) \<noteq> mHandle (handles w other)
           \<and> \<not> live_record w (mHandle (handles w' this))
           \<and> mOwnsHandle (handles w' this)
           \<and> handles w' other = handles w other
           \<and> live_record w' (mHandle (handles w' this))
           \<and> live_record w' (mHandle (handles w other))
           \<and> calls w' = calls w @ [Clone (mHandle (handles w other)) (mHandle (handles w' this))]
           \<and> (\<exists>w''. hidl_handle_dtor this w' = Inr w''
                 \<and> calls w'' = calls w' @ [Close (mHandle (handles w' this)),
                                             Delete (mHandle (handles w' this))]
                 \<and> handles w'' other = handles w other
                 \<and> live_record w'' (mHandle (handles w other)))))
    \<and> (mHandle (handles w other) \<noteq> NullHandle \<and> clone_fails w \<longrightarrow>
       (\<exists>w'. hidl_handle_copy this other w
             = Inl (LogFatal ''Failed to clone native_handle in hidl_handle.'', w'))))
    \<and> (owned_record_live w this
        \<and> \<not> (owns_record w this \<and> mHandle (handles w this) = mHandle (handles w other)) \<longrightarrow>
        (mHandle (handles w other) = NullHandle \<longrightarrow>
           (\<exists>w'. handle_assign_copy this other w = Inr w'
               \<and> handles w' this = \<lparr>mHandle = NullHandle, mOwnsHandle = False\<rparr>
               \<and> handles w' other = handles w other
               \<and> calls w' = calls w @ release_calls w this))
        \<and> (mHandle (handles w other) \<noteq> NullHandle \<and> \<not> clone_fails w \<longrightarrow>
           (\<exists>w'. handle_assign_copy this other w = Inr w'
               \<and> mHandle (handles w' this) \<noteq> NullHandle
               \<and> mHandle (handles w' this) \<noteq> mHandle (handles w other)
               \<and> \<not> live_record w (mHandle (handles w' this))
               \<and> mOwnsHandle (handles w' this)
               \<and> handles w' other = handles w other
               \<and> live_record w' (mHandle (handles w' this))
               \<and> live_record w' (mHandle (handles w other))
               \<and> calls w' = calls w @ release_calls w this @ [Clone (mHandle (handles w other)) (mHandle (handles w' this))]
               \<and> (\<exists>w''. hidl_handle_dtor this w' = Inr w''
                     \<and> calls w'' = calls w' @ [Close (mHandle (handles w' this)),
                                                 Delete (mHandle (handles w' this))]
                     \<and> handles w'' other = handles w other
                     \<and> live_record w'' (mHandle (handles w other)))))
        \<and> (mHandle (handles w other) \<noteq> NullHandle \<and> clone_fails w \<longrightarrow>
           (\<exists>w'. handle_assign_copy this other w
                 = Inl (LogFatal ''Failed to clone native_handle in hidl_handle.'', w'))))
    \<and> handle_assign_copy this this w = Inr w"
    (is "((?A \<longrightarrow> ?N1) \<and> (?BC \<longrightarrow> ?K1) \<and> (?BD \<longrightarrow> ?F1))
         \<and> (?pre \<longrightarrow> (_ \<longrightarrow> ?N2) \<and> (_ \<longrightarrow> ?K2) \<and> (_ \<longrightarrow> ?F2)) \<and> ?self")
proof -
  let ?w0 = "set_handle this (\<lambda>h. h\<lparr>mOwnsHandle := False\<rparr>) w"
  have lr: "live_record ?w0 p = live_record w p" for p
    by (rule live_record_eq) (simp add: set_handle_def)
  have e: "handles ?w0 other = handles w other" "calls ?w0 = calls w"
      "clone_fails ?w0 = clone_fails w" "release_calls ?w0 this = []"
    using ne by (simp_all add: set_handle_def release_calls_def owns_record_def)
  have l0: "owned_record_live ?w0 this"
    by (simp add: owned_record_live_def owns_record_def set_handle_def)
  have n0: "\<not> (owns_record ?w0 this \<and> mHandle (handles ?w0 this) = mHandle (handles ?w0 other))"
    by (simp add: owns_record_def set_handle_def)
  have s0: "mHandle (handles ?w0 other) \<noteq> NullHandle \<longrightarrow>
              live_record ?w0 (mHandle (handles ?w0 other))"
    using src by (simp add: e lr)
  note c = assign_copy_cases [OF ne l0 n0 s0, unfolded e lr append_Nil append_Nil2,
             folded hidl_handle_copy_def]
  have n1: "?A \<longrightarrow> ?N1" by (rule impI) (rule c(1))
  have k1: "?BC \<longrightarrow> ?K1"
  proof (rule impI)
    assume bc: ?BC
    show ?K1 by (rule c(2) [OF conjunct1 [OF bc] conjunct2 [OF bc]])
  qed
  have f1: "?BD \<longrightarrow> ?F1"
  proof (rule impI)
    assume bd: ?BD
    show ?F1 by (rule c(3) [OF conjunct1 [OF bd] conjunct2 [OF bd]])
  qed
  have c3: "(?A \<longrightarrow> ?N1) \<and> (?BC \<longrightarrow> ?K1) \<and> (?BD \<longrightarrow> ?F1)"
    by (rule conjI [OF n1 conjI [OF k1 f1]])
  have a: "?pre \<longrightarrow> (?A \<longrightarrow> ?N2) \<and> (?BC \<longrightarrow> ?K2) \<and> (?BD \<longrightarrow> ?F2)"
  proof (rule impI)
    assume pre: ?pre
    note d = assign_copy_cases [OF ne conjunct1 [OF pre] conjunct2 [OF pre] src]
    have n2: "?A \<longrightarrow> ?N2" by (rule impI) (rule d(1))
    have k2: "?BC \<longrightarrow> ?K2"
    proof (rule impI)
      assume bc: ?BC
      show ?K2 by (rule d(2) [OF conjunct1 [OF bc] conjunct2 [OF bc]])
    qed
    have f2: "?BD \<longrightarrow> ?F2"
    proof (rule impI)
      assume bd: ?BD
      show ?F2 by (rule d(3) [OF conjunct1 [OF bd] conjunct2 [OF bd]])
    qed
    show "(?A \<longrightarrow> ?N2) \<and> (?BC \<longrightarrow> ?K2) \<and> (?BD \<longrightarrow> ?F2)"
      by (rule conjI [OF n2 conjI [OF k2 f2]])
  qed
  have self: ?self by (simp add: handle_assign_copy_def)
  show ?thesis by (rule conjI [OF c3 conjI [OF a self]])
qed

theorem handle_copy_clones_witness:
  "(1 :: nat) \<noteq> 0
   \<and> mHandle (handles demo_handle_world 0) = Handle 0
   \<and> live_record demo_handle_world (Handle 0)
   \<and> \<not> clone_fails demo_handle_world
   \<and> (\<exists>w'. hidl_handle_copy 1 0 demo_handle_world = Inr w'
          \<and> mHandle (handles w' 1) \<noteq> NullHandle
          \<and> mHandle (handles w' 1) \<noteq> Handle 0
          \<and> mOwnsHandle (handles w' 1)
          \<and> calls w' = [Clone (Handle 0) (mHandle (handles w' 1))]
          \<and> (\<exists>w''. hidl_handle_dtor 1 w' = Inr w'' \<and> live_record w'' (Handle 0)))
   \<and> owned_record_live demo_handle_world 1
   \<and> \<not> owns_record demo_handle_world 1
   \<and> (\<exists>w'. handle_assign_copy 1 0 demo_handle_world = Inr w'
          \<and> mHandle (handles w' 1) \<noteq> Handle 0
          \<and> mOwnsHandle (handles w' 1))
   \<and> mHandle (handles demo_handle_world 2) = NullHandle
   \<and> (\<exists>w'. hidl_handle_copy 1 2 demo_handle_world = Inr w'
          \<and> handles w' 1 = \<lparr>mHandle = NullHandle, mOwnsHandle = False\<rparr>)
   \<and> clone_fails (demo_handle_world\<lparr>clone_fails := True\<rparr>)
   \<and> (\<exists>w'. hidl_handle_copy 1 0 (demo_handle_world\<lparr>clone_fails := True\<rparr>)
          = Inl (LogFatal ''Failed to clone native_handle in hidl_handle.'', w'))"
proof -
  have ne: "(1 :: nat) \<noteq> 0" "(1 :: nat) \<noteq> 2" by simp_all
  have vals: "mHandle (handles demo_handle_world 0) = Handle 0"
      "live_record demo_handle_world (Handle 0)"
      "clone_fails demo_handle_world = False"
      "calls demo_handle_world = []"
      "mHandle (handles demo_handle_world 2) = NullHandle"
    by (simp_all add: demo_handle_world_def)
  have own: "owned_record_live demo_handle_world 1" "\<not> owns_record demo_handle_world 1"
      "release_calls demo_handle_world 1 = []"
    by (simp_all add: owned_record_live_def owns_record_def release_calls_def demo_handle_world_def)
  let ?f = "demo_handle_world\<lparr>clone_fails := True\<rparr>"
  have fvals: "mHandle (handles ?f 0) = Handle 0" "live_record ?f (Handle 0)" "clone_fails ?f"
    by (simp_all add: demo_handle_world_def)
  have src0: "mHandle (handles demo_handle_world 0) \<noteq> NullHandle \<longrightarrow>
               live_record demo_handle_world (mHandle (handles demo_handle_world 0))"
    by (simp add: demo_handle_world_def)
  have src2: "mHandle (handles demo_handle_world 2) \<noteq> NullHandle \<longrightarrow>
               live_record demo_handle_world (mHandle (handles demo_handle_world 2))"
    by (simp add: demo_handle_world_def)
  have srcf: "mHandle (handles ?f 0) \<noteq> NullHandle \<longrightarrow> live_record ?f (mHandle (handles ?f 0))"
    by (simp add: demo_handle_world_def)
  note t0 = handle_copy_clones [OF ne(1) src0, unfolded vals own append_Nil]
  note t2 = handle_copy_clones [OF ne(2) src2, unfolded vals]
  note tf = handle_copy_clones [OF ne(1) srcf, unfolded fvals]
  have p0: "Handle 0 \<noteq> NullHandle \<and> \<not> False" by simp
  have p1: "owned_record_live demo_handle_world 1
            \<and> \<not> (owns_record demo_handle_world 1
                   \<and> mHandle (handles demo_handle_world 1) = Handle 0)"
    using own(1,2) by simp
  have pf: "Handle 0 \<noteq> NullHandle \<and> clone_fails ?f" by simp
  from t0 [THEN conjunct1, THEN conjunct2, THEN conjunct1, THEN mp, OF p0]
  have a: "\<exists>w'. hidl_handle_copy 1 0 demo_handle_world = Inr w'
          \<and> mHandle (handles w' 1) \<noteq> NullHandle
          \<and> mHandle (handles w' 1) \<noteq> Handle 0
          \<and> mOwnsHandle (handles w' 1)
          \<and> calls w' = [Clone (Handle 0) (mHandle (handles w' 1))]
          \<and> (\<exists>w''. hidl_handle_dtor 1 w' = Inr w'' \<and> live_record w'' (Handle 0))"
    by blast
  from t0 [THEN conjunct2, THEN conjunct1, THEN mp, OF p1,
           THEN conjunct2, THEN conjunct1, THEN mp, OF p0]
  have b: "\<exists>w'. handle_assign_copy 1 0 demo_handle_world = Inr w'
          \<and> mHandle (handles w' 1) \<noteq> Handle 0
          \<and> mOwnsHandle (handles w' 1)"
    by blast
  from t2 [THEN conjunct1, THEN conjunct1, THEN mp, OF refl]
  have c: "\<exists>w'. hidl_handle_copy 1 2 demo_handle_world = Inr w'
          \<and> handles w' 1 = \<lparr>mHandle = NullHandle, mOwnsHandle = False\<rparr>"
    by blast
  from tf [THEN conjunct1, THEN conjunct2, THEN conjunct2, THEN mp, OF pf]
  have d: "\<exists>w'. hidl_handle_copy 1 0 ?f
          = Inl (LogFatal ''Failed to clone native_handle in hidl_handle.'', w')" .
  have nf: "\<not> clone_fails demo_handle_world" by (simp add: vals)
  from ne(1) vals(1,2,5) nf own(1,2) fvals(3) a b c d show ?thesis by blast
qed

subsection \<open>Moving a hidl\_handle\<close>

lemma move_after_free:
  assumes ne: "this \<noteq> other" and f: "freeHandle this w = Inr v"
  shows "handle_assign_move this other w =
           Inr (v\<lparr>handles := (handles v)(this := handles v other,
                      other := \<lparr>mHandle = NullHandle, mOwnsHandle = False\<rparr>)\<rparr>)"
proof -
  have r: "\<lparr>mHandle = mHandle h, mOwnsHandle = mOwnsHandle h\<rparr> = h" for h :: hidl_handle
    by (cases h) simp
  show ?thesis
    using ne f by (simp add: handle_assign_move_def set_handle_def Let_def r fun_eq_iff)
qed

lemma moved_then_destroyed:
  assumes ne: "this \<noteq> other"
    and w': "w' = v\<lparr>handles := (handles v)(this := handles v other,
                      other := \<lparr>mHandle = NullHandle, mOwnsHandle = False\<rparr>)\<rparr>"
  shows "handles w' other = \<lparr>mHandle = NullHandle, mOwnsHandle = False\<rparr>"
    and "handles w' this = handles v other"
    and "calls w' = calls v"
    and "hidl_handle_dtor other w' = Inr w'"
    and "owns_record v other \<Longrightarrow> live_record v (mHandle (handles v other)) \<Longrightarrow>
         \<exists>w''. hidl_handle_dtor this w' = Inr w''
           \<and> calls w'' = calls v @ [Close (mHandle (handles v other)),
                                      Delete (mHandle (handles v other))]
           \<and> \<not> live_record w'' (mHandle (handles v other))
           \<and> hidl_handle_dtor other w'' = Inr w''"
    and "\<not> owns_record v other \<Longrightarrow> hidl_handle_dtor this w' = Inr w'"
proof -
  show o: "handles w' other = \<lparr>mHandle = NullHandle, mOwnsHandle = False\<rparr>"
    by (simp add: w')
  show t: "handles w' this = handles v other" using ne by (simp add: w')
  show "calls w' = calls v" by (simp add: w')
  have "\<not> owns_record w' other" by (simp add: owns_record_def o)
  then show "hidl_handle_dtor other w' = Inr w'"
    by (simp add: hidl_handle_dtor_def freeHandle_not_owning)
  {
    assume own: "owns_record v other" and live: "live_record v (mHandle (handles v other))"
    from live obtain n where n: "mHandle (handles v other) = Handle n" "n < length (records v)"
        "records v ! n"
      by (cases "mHandle (handles v other)") simp_all
    let ?w'' = "w'\<lparr>records := (records w')[n := False],
            calls := calls w' @ [Close (Handle n), Delete (Handle n)],
            handles := (handles w')(this := (handles w' this)\<lparr>mHandle := NullHandle\<rparr>)\<rparr>"
    have "freeHandle this w' = Inr ?w''"
    proof (rule freeHandle_owning)
      show "mOwnsHandle (handles w' this)" using own by (simp add: t owns_record_def)
      show "mHandle (handles w' this) = Handle n" by (simp add: t n)
      show "n < length (records w')" using n by (simp add: w')
      show "records w' ! n" using n by (simp add: w')
    qed
    moreover have "\<not> owns_record ?w'' other" using ne by (simp add: owns_record_def o)
    then have "freeHandle other ?w'' = Inr ?w''" by (rule freeHandle_not_owning)
    moreover have "\<not> live_record ?w'' (Handle n)" using n by (simp add: w')
    moreover have "calls ?w'' = calls v @ [Close (Handle n), Delete (Handle n)]"
      by (simp add: w')
    ultimately show "\<exists>w''. hidl_handle_dtor this w' = Inr w''
           \<and> calls w'' = calls v @ [Close (mHandle (handles v other)),
                                      Delete (mHandle (handles v other))]
           \<and> \<not> live_record w'' (mHandle (handles v other))
           \<and> hidl_handle_dtor other w'' = Inr w''"
      unfolding n(1) hidl_handle_dtor_def by (intro exI [of _ ?w''] conjI)
  }
  {
    assume "\<not> owns_record v other"
    then have "\<not> owns_record w' this" by (simp add: owns_record_def t)
    then show "hidl_handle_dtor this w' = Inr w'"
      by (simp add: hidl_handle_dtor_def freeHandle_not_owning)
  }
qed

lemma move_ctor_case:
  assumes ne: "this \<noteq> other"
  shows "(\<exists>w'. hidl_handle_move this other w = Inr w'
        \<and> handles w' other = \<lparr>mHandle = NullHandle, mOwnsHandle = False\<rparr>
        \<and> mHandle (handles w' this) = mHandle (handles w other)
        \<and> mOwnsHandle (handles w' this) = mOwnsHandle (handles w other)
        \<and> calls w' = calls w
        \<and> hidl_handle_dtor other w' = Inr w'
        \<and> (owns_record w other \<and> live_record w (mHandle (handles w other)) \<longrightarrow>
             (\<exists>w''. hidl_handle_dtor this w' = Inr w''
                \<and> calls w'' = calls w' @ [Close (mHandle (handles w other)),
                                            Delete (mHandle (handles w other))]
                \<and> \<not> live_record w'' (mHandle (handles w other))
                \<and> hidl_handle_dtor other w'' = Inr w''))
        \<and> (\<not> owns_record w other \<longrightarrow> hidl_handle_dtor this w' = Inr w'))"
proof -
  let ?w0 = "set_handle this (\<lambda>h. h\<lparr>mOwnsHandle := False\<rparr>) w"
  let ?w' = "?w0\<lparr>handles := (handles ?w0)(this := handles ?w0 other,
                      other := \<lparr>mHandle = NullHandle, mOwnsHandle = False\<rparr>)\<rparr>"
  have lr: "live_record ?w0 p = live_record w p" for p
    by (rule live_record_eq) (simp add: set_handle_def)
  have e: "handles ?w0 other = handles w other" "calls ?w0 = calls w"
      "owns_record ?w0 other = owns_record w other"
    using ne by (simp_all add: set_handle_def owns_record_def)
  have "\<not> owns_record ?w0 this" by (simp add: owns_record_def set_handle_def)
  then have "freeHandle this ?w0 = Inr ?w0" by (rule freeHandle_not_owning)
  from move_after_free [OF ne this]
  have r: "hidl_handle_move this other w = Inr ?w'"
    by (simp add: hidl_handle_move_def)
  note t = moved_then_destroyed [OF ne refl, of ?w0, unfolded e lr]
  show ?thesis
    using r t
    apply -
    apply (rule exI [of _ ?w'])
    apply (simp add: e)
    done
qed

lemma move_assign_case:
  assumes ne: "this \<noteq> other" and live: "owned_record_live w this"
  shows "(\<exists>w'. handle_assign_move this other w = Inr w'
        \<and> handles w' other = \<lparr>mHandle = NullHandle, mOwnsHandle = False\<rparr>
        \<and> mHandle (handles w' this) = mHandle (handles w other)
        \<and> mOwnsHandle (handles w' this) = mOwnsHandle (handles w other)
        \<and> calls w' = calls w @ release_calls w this
        \<and> hidl_handle_dtor other w' = Inr w'
        \<and> (owns_record w other \<and> live_record w (mHandle (handles w other))
             \<and> \<not> (owns_record w this \<and> mHandle (handles w this) = mHandle (handles w other)) \<longrightarrow>
             (\<exists>w''. hidl_handle_dtor this w' = Inr w''
                \<and> calls w'' = calls w' @ [Close (mHandle (handles w other)),
                                            Delete (mHandle (handles w other))]
                \<and> \<not> live_record w'' (mHandle (handles w other))
                \<and> hidl_handle_dtor other w'' = Inr w''))
        \<and> (\<not> owns_record w other \<longrightarrow> hidl_handle_dtor this w' = Inr w'))"
proof -
  from freeHandle_live [OF live] obtain v where
    f: "freeHandle this w = Inr v"
    and cv: "calls v = calls w @ release_calls w this"
    and hv: "\<forall>i. i \<noteq> this \<longrightarrow> handles v i = handles w i"
    and keep: "\<forall>p. live_record w p \<and> \<not> (owns_record w this \<and> p = mHandle (handles w this))
                  \<longrightarrow> live_record v p"
    by blast
  from hv ne have ho: "handles v other = handles w other" by simp
  then have oo: "owns_record v other = owns_record w other" by (simp add: owns_record_def)
  let ?w' = "v\<lparr>handles := (handles v)(this := handles v other,
                      other := \<lparr>mHandle = NullHandle, mOwnsHandle = False\<rparr>)\<rparr>"
  have r: "handle_assign_move this other w = Inr ?w'"
    by (rule move_after_free [OF ne f])
  note t = moved_then_destroyed [OF ne refl, of v, unfolded ho oo cv]
  have lv: "live_record v (mHandle (handles w other))"
    if "live_record w (mHandle (handles w other))
         \<and> \<not> (owns_record w this \<and> mHandle (handles w this) = mHandle (handles w other))"
    using keep [THEN spec, of "mHandle (handles w other)"] that by auto
  show ?thesis
    using r t(1-4) t(5) [OF _ lv] t(6)
    apply -
    apply (rule exI [of _ ?w'])
    apply (simp add: ho cv)
    done
qed

text \<open>
  C7. Moving a \<^verbatim>\<open>hidl_handle\<close> \<open>other\<close> into a distinct object \<open>this\<close>, by the move
  constructor or by move assignment (for which the destination's owned record, if any,
  must be allocated). Afterwards the source is null and non-owning and the destination
  has the source's old record pointer and ownership flag; destroying the source makes no
  call. If the source owned its record and that record is allocated (and, for the
  assignment, was not also owned by the destination), destroying the destination calls
  \<^verbatim>\<open>native_handle_close\<close> and then \<^verbatim>\<open>native_handle_delete\<close> on it, once each, the
  record is gone, and destroying the source afterwards makes no further call. If the
  source did not own a record, destroying the destination makes no call. Moving an
  object into itself changes nothing.
\<close>

theorem handle_move_transfers:
  assumes ne: "this \<noteq> other"
  shows
 "(\<exists>w'. hidl_handle_move this other w = Inr w'
      \<and> handles w' other = \<lparr>mHandle = NullHandle, mOwnsHandle = False\<rparr>
      \<and> mHandle (handles w' this) = mHandle (handles w other)
      \<and> mOwnsHandle (handles w' this) = mOwnsHandle (handles w other)
      \<and> calls w' = calls w
      \<and> hidl_handle_dtor other w' = Inr w'
      \<and> (owns_record w other \<and> live_record w (mHandle (handles w other)) \<longrightarrow>
           (\<exists>w''. hidl_handle_dtor this w' = Inr w''
              \<and> calls w'' = calls w' @ [Close (mHandle (handles w other)),
                                          Delete (mHandle (handles w other))]
              \<and> \<not> live_record w'' (mHandle (handles w other))
              \<and> hidl_handle_dtor other w'' = Inr w''))
      \<and> (\<not> owns_record w other \<longrightarrow> hidl_handle_dtor this w' = Inr w'))
  \<and> (owned_record_live w this \<longrightarrow>
      (\<exists>w'. handle_assign_move this other w = Inr w'
          \<and> handles w' other = \<lparr>mHandle = NullHandle, mOwnsHandle = False\<rparr>
          \<and> mHandle (handles w' this) = mHandle (handles w other)
          \<and> mOwnsHandle (handles w' this) = mOwnsHandle (handles w other)
          \<and> calls w' = calls w @ release_calls w this
          \<and> hidl_handle_dtor other w' = Inr w'
          \<and> (owns_record w other \<and> live_record w (mHandle (handles w other))
               \<and> \<not> (owns_record w this \<and> mHandle (handles w this) = mHandle (handles w other)) \<longrightarrow>
               (\<exists>w''. hidl_handle_dtor this w' = Inr w''
                  \<and> calls w'' = calls w' @ [Close (mHandle (handles w other)),
                                              Delete (mHandle (handles w other))]
                  \<and> \<not> live_record w'' (mHandle (handles w other))
                  \<and> hidl_handle_dtor other w'' = Inr w''))
          \<and> (\<not> owns_record w other \<longrightarrow> hidl_handle_dtor this w' = Inr w')))
  \<and> handle_assign_move this this w = Inr w"
proof -
  have self: "handle_assign_move this this w = Inr w"
    by (simp add: handle_assign_move_def)
  note c = move_ctor_case [OF ne, of w]
  have a: "owned_record_live w this \<longrightarrow>
      (\<exists>w'. handle_assign_move this other w = Inr w'
          \<and> handles w' other = \<lparr>mHandle = NullHandle, mOwnsHandle = False\<rparr>
          \<and> mHandle (handles w' this) = mHandle (handles w other)
          \<and> mOwnsHandle (handles w' this) = mOwnsHandle (handles w other)
          \<and> calls w' = calls w @ release_calls w this
          \<and> hidl_handle_dtor other w' = Inr w'
          \<and> (owns_record w other \<and> live_record w (mHandle (handles w other))
               \<and> \<not> (owns_record w this \<and> mHandle (handles w this) = mHandle (handles w other)) \<longrightarrow>
               (\<exists>w''. hidl_handle_dtor this w' = Inr w''
                  \<and> calls w'' = calls w' @ [Close (mHandle (handles w other)),
                                              Delete (mHandle (handles w other))]
                  \<and> \<not> live_record w'' (mHandle (handles w other))
                  \<and> hidl_handle_dtor other w'' = Inr w''))
          \<and> (\<not> owns_record w other \<longrightarrow> hidl_handle_dtor this w' = Inr w'))"
    by (rule impI) (rule move_assign_case [OF ne])
  show ?thesis by (rule conjI [OF c conjI [OF a self]])
qed

theorem handle_move_transfers_witness:
  "(1 :: nat) \<noteq> 0
   \<and> owns_record demo_owned_handle_world 0
   \<and> live_record demo_owned_handle_world (Handle 0)
   \<and> owned_record_live demo_owned_handle_world 1
   \<and> \<not> owns_record demo_owned_handle_world 1
   \<and> (\<exists>w'. hidl_handle_move 1 0 demo_owned_handle_world = Inr w'
          \<and> handles w' 0 = \<lparr>mHandle = NullHandle, mOwnsHandle = False\<rparr>
          \<and> mHandle (handles w' 1) = Handle 0
          \<and> mOwnsHandle (handles w' 1)
          \<and> (\<exists>w''. hidl_handle_dtor 1 w' = Inr w''
                \<and> calls w'' = [Close (Handle 0), Delete (Handle 0)]
                \<and> hidl_handle_dtor 0 w'' = Inr w''))
   \<and> (\<exists>w'. handle_assign_move 1 0 demo_owned_handle_world = Inr w'
          \<and> handles w' 0 = \<lparr>mHandle = NullHandle, mOwnsHandle = False\<rparr>
          \<and> mHandle (handles w' 1) = Handle 0
          \<and> mOwnsHandle (handles w' 1)
          \<and> (\<exists>w''. hidl_handle_dtor 1 w' = Inr w''
                \<and> calls w'' = [Close (Handle 0), Delete (Handle 0)]
                \<and> hidl_handle_dtor 0 w'' = Inr w''))"
proof -
  have ne: "(1 :: nat) \<noteq> 0" by simp
  have vals: "mHandle (handles demo_owned_handle_world 0) = Handle 0"
      "mOwnsHandle (handles demo_owned_handle_world 0) = True"
      "calls demo_owned_handle_world = []"
      "release_calls demo_owned_handle_world 1 = []"
    by (simp_all add: demo_owned_handle_world_def demo_handle_world_def release_calls_def
          owns_record_def)
  have own0: "owns_record demo_owned_handle_world 0"
    and live0: "live_record demo_owned_handle_world (Handle 0)"
    and live1: "owned_record_live demo_owned_handle_world 1"
    and own1: "\<not> owns_record demo_owned_handle_world 1"
    by (simp_all add: demo_owned_handle_world_def demo_handle_world_def owns_record_def
          owned_record_live_def)
  note t = handle_move_transfers [OF ne, of demo_owned_handle_world, unfolded vals append_Nil2]
  from t [THEN conjunct1] obtain w' where c:
      "hidl_handle_move 1 0 demo_owned_handle_world = Inr w'"
      "handles w' 0 = \<lparr>mHandle = NullHandle, mOwnsHandle = False\<rparr>"
      "mHandle (handles w' 1) = Handle 0" "mOwnsHandle (handles w' 1) = True"
      "calls w' = []"
      "owns_record demo_owned_handle_world 0 \<and> live_record demo_owned_handle_world (Handle 0) \<longrightarrow>
         (\<exists>w''. hidl_handle_dtor 1 w' = Inr w''
            \<and> calls w'' = calls w' @ [Close (Handle 0), Delete (Handle 0)]
            \<and> \<not> live_record w'' (Handle 0)
            \<and> hidl_handle_dtor 0 w'' = Inr w'')"
    by blast
  from c(6) own0 live0 have "\<exists>w''. hidl_handle_dtor 1 w' = Inr w''
                \<and> calls w'' = [Close (Handle 0), Delete (Handle 0)]
                \<and> hidl_handle_dtor 0 w'' = Inr w''"
    unfolding c(5) append_Nil by blast
  with c(1-4) have ctor: "\<exists>w'. hidl_handle_move 1 0 demo_owned_handle_world = Inr w'
          \<and> handles w' 0 = \<lparr>mHandle = NullHandle, mOwnsHandle = False\<rparr>
          \<and> mHandle (handles w' 1) = Handle 0
          \<and> mOwnsHandle (handles w' 1)
          \<and> (\<exists>w''. hidl_handle_dtor 1 w' = Inr w''
                \<and> calls w'' = [Close (Handle 0), Delete (Handle 0)]
                \<and> hidl_handle_dtor 0 w'' = Inr w'')"
    by blast
  from t [THEN conjunct2, THEN conjunct1, THEN mp, OF live1] obtain v' where a:
      "handle_assign_move 1 0 demo_owned_handle_world = Inr v'"
      "handles v' 0 = \<lparr>mHandle = NullHandle, mOwnsHandle = False\<rparr>"
      "mHandle (handles v' 1) = Handle 0" "mOwnsHandle (handles v' 1) = True"
      "calls v' = []"
      "owns_record demo_owned_handle_world 0 \<and> live_record demo_owned_handle_world (Handle 0)
         \<and> \<not> (owns_record demo_owned_handle_world 1
               \<and> mHandle (handles demo_owned_handle_world 1) = Handle 0) \<longrightarrow>
         (\<exists>w''. hidl_handle_dtor 1 v' = Inr w''
            \<and> calls w'' = calls v' @ [Close (Handle 0), Delete (Handle 0)]
            \<and> \<not> live_record w'' (Handle 0)
            \<and> hidl_handle_dtor 0 w'' = Inr w'')"
    by blast
  from a(6) own0 live0 own1 have "\<exists>w''. hidl_handle_dtor 1 v' = Inr w''
                \<and> calls w'' = [Close (Handle 0), Delete (Handle 0)]
                \<and> hidl_handle_dtor 0 w'' = Inr w''"
    unfolding a(5) append_Nil by blast
  with a(1-4) have asg: "\<exists>w'. handle_assign_move 1 0 demo_owned_handle_world = Inr w'
          \<and> handles w' 0 = \<lparr>mHandle = NullHandle, mOwnsHandle = False\<rparr>
          \<and> mHandle (handles w' 1) = Handle 0
          \<and> mOwnsHandle (handles w' 1)
          \<and> (\<exists>w''. hidl_handle_dtor 1 w' = Inr w''
                \<and> calls w'' = [Close (Handle 0), Delete (Handle 0)]
                \<and> hidl_handle_dtor 0 w'' = Inr w'')"
    by blast
  from ne own0 live0 live1 own1 ctor asg show ?thesis by blast
qed

end
